theory Spec2Isabelle
  imports Main "HOL-Library.AList" "HOL-Library.Multiset"
begin

section \<open>Data preparation steps of \<open>allennlp/steps/examples.py\<close>\<close>

text \<open>
  The file defines four steps: \<open>HuggingfaceDataset\<close>, \<open>TextOnlyDataset\<close>, \<open>Tokenize\<close> and
  \<open>PiqaInstances\<close>. Each \<open>run\<close> method is embedded as a HOL function. Exceptions are values
  of type \<open>error\<close> on the left of a sum; the third-party libraries (dataset loader,
  tokenizer, regular expressions, vocabulary) are the fields of a record of functions that
  every step takes as its first argument.
\<close>

subsection \<open>Python values\<close>

datatype error =
    AssertionError
  | KeyError
  | IndexError
  | TypeError
  | AttributeError
  | RuntimeError
  | LibraryError string

text \<open>
  A tensor: its elements and its element type. \<open>torch.tensor(data, dtype=torch.int32)\<close>
  raises \<open>RuntimeError\<close> when an element of \<open>data\<close> does not fit 32 bits;
  \<open>torch.tensor(data, dtype=torch.bool)\<close> turns every number that is not 0 into \<open>True\<close>
  (kept as 1) and does not fail.
\<close>

datatype dtype = int32 | bool_dtype

datatype tensor =
    torch_tensor "int list" dtype
  | torch_tensor_pairs "(int \<times> int) list" dtype

definition in_int32 :: "int \<Rightarrow> bool" where
  "in_int32 x = (- 2147483648 \<le> x \<and> x \<le> 2147483647)"

definition tensor_int32 :: "int list \<Rightarrow> error + tensor" where
  "tensor_int32 data =
     (if list_all in_int32 data then Inr (torch_tensor data int32) else Inl RuntimeError)"

definition tensor_int32_pairs :: "(int \<times> int) list \<Rightarrow> error + tensor" where
  "tensor_int32_pairs data =
     (if list_all (\<lambda>p. in_int32 (fst p) \<and> in_int32 (snd p)) data
      then Inr (torch_tensor_pairs data int32)
      else Inl RuntimeError)"

definition tensor_bool :: "int list \<Rightarrow> error + tensor" where
  "tensor_bool data = Inr (torch_tensor (map (\<lambda>x. if x = 0 then 0 else 1) data) bool_dtype)"

text \<open>
  The constructor arguments of \<open>TransformerTextField\<close>, in the order of its signature:
  all but \<open>input_ids\<close> are optional, and \<open>padding_token_id\<close> defaults to 0.
\<close>

record TransformerTextField =
  input_ids :: tensor
  token_type_ids :: "tensor option"
  attention_mask :: "tensor option"
  special_tokens_mask :: "tensor option"
  offsets_mapping :: "tensor option"
  padding_token_id :: "int option"

datatype field =
    TextField TransformerTextField
  | ListField "field list"
  | IndexField int field

text \<open>
  The values found in a split: strings, other leaves, lists, dicts (in insertion order),
  \<open>datasets.Dataset\<close> objects (a sequence of rows), and the fields and instances that the
  steps produce.
\<close>

datatype obj =
    Str string
  | IntObj int
  | NoneObj
  | Lst "obj list"
  | Dct "(string \<times> obj) list"
  | Dset "obj list"
  | FieldObj field
  | Instance "(string \<times> field) list"

text \<open>
  \<open>AllenNlpDataset\<close> is a dataclass of \<open>splits\<close>, \<open>vocab\<close> (default \<open>None\<close>) and
  \<open>metadata\<close> (default empty). A \<open>Vocabulary\<close> is an object that is mutated in place, so the
  dataset holds a reference into a store of vocabularies.
\<close>

record AllenNlpDataset =
  splits :: "(string \<times> obj) list"
  vocab :: "nat option"
  metadata :: "(string \<times> string) list"

record 'v store =
  cells :: "nat \<Rightarrow> 'v"
  next_ref :: nat

definition new_object :: "'v \<Rightarrow> 'v store \<Rightarrow> nat \<times> 'v store" where
  "new_object v st = (next_ref st, \<lparr>cells = (cells st)(next_ref st := v), next_ref = Suc (next_ref st)\<rparr>)"

definition mutate :: "nat \<Rightarrow> ('v \<Rightarrow> 'v) \<Rightarrow> 'v store \<Rightarrow> 'v store" where
  "mutate r f st = st\<lparr>cells := (cells st)(r := f (cells st r))\<rparr>"

subsection \<open>The third-party libraries\<close>

text \<open>What \<open>batch_encode_plus\<close> is given: a text, or a pair of texts.\<close>

datatype tok_input = Single string | Pair obj obj

record encode_args =
  add_special_tokens :: bool
  truncation :: bool
  max_length :: "int option"
  return_token_type_ids :: bool
  return_attention_mask :: bool
  return_special_tokens_mask :: bool
  return_offsets_mapping :: bool

text \<open>
  A \<open>BatchEncoding\<close>: one entry per input under each key. The keys \<open>input_ids\<close> and
  \<open>token_type_ids\<close> (requested by every call in this file) are always there; the other
  keys are tested with \<open>in\<close> by the code.
\<close>

record BatchEncoding =
  enc_input_ids :: "int list list"
  enc_token_type_ids :: "int list list"
  enc_attention_mask :: "int list list option"
  enc_special_tokens_mask :: "int list list option"
  enc_offset_mapping :: "(int \<times> int) list list option"

text \<open>
  The libraries and the runtime. A compiled regular expression is the predicate of its
  \<open>fullmatch\<close>. A \<open>DatasetDict\<close> maps split names to datasets whose rows are dicts.
  \<open>set_iteration\<close> is the order in which the interpreter iterates a set, given the elements
  in the order of their insertion: Python does not fix it.
\<close>

record ('tok, 'v) libs =
  get_tokenizer :: "string \<Rightarrow> error + 'tok"
  pad_token_type_id :: "'tok \<Rightarrow> int"
  pad_token_id :: "'tok \<Rightarrow> int option"
  batch_encode_plus :: "'tok \<Rightarrow> tok_input list \<Rightarrow> encode_args \<Rightarrow> error + BatchEncoding"
  re_compile :: "string \<Rightarrow> error + (string \<Rightarrow> bool)"
  load_dataset :: "string \<Rightarrow> error + (string \<times> (string \<times> obj) list list) list"
  Vocabulary_empty :: "'v"
  add_transformer_vocab :: "'tok \<Rightarrow> string \<Rightarrow> 'v \<Rightarrow> 'v"
  set_iteration :: "string list \<Rightarrow> string list"

subsection \<open>Iteration, indexing and lookup\<close>

text \<open>
  \<open>for x in o\<close>: a dict and an \<open>Instance\<close> (a mapping) iterate their keys, a string its
  characters, a \<open>ListField\<close> its fields; the other values are not iterable.
\<close>

fun py_iter :: "obj \<Rightarrow> error + obj list" where
  "py_iter (Lst items) = Inr items"
| "py_iter (Dset rows) = Inr rows"
| "py_iter (Dct items) = Inr (map (\<lambda>kv. Str (fst kv)) items)"
| "py_iter (Str s) = Inr (map (\<lambda>c. Str [c]) s)"
| "py_iter (Instance fs) = Inr (map (\<lambda>kv. Str (fst kv)) fs)"
| "py_iter (FieldObj (ListField fs)) = Inr (map FieldObj fs)"
| "py_iter _ = Inl TypeError"

text \<open>
  \<open>o.items()\<close>: a dict and an \<open>Instance\<close> (a mapping from field names to fields) have the
  method; the other values raise \<open>AttributeError\<close>.
\<close>

fun py_items :: "obj \<Rightarrow> error + (string \<times> obj) list" where
  "py_items (Dct items) = Inr items"
| "py_items (Instance fs) = Inr (map (\<lambda>kv. (fst kv, FieldObj (snd kv))) fs)"
| "py_items _ = Inl AttributeError"

definition list_getitem :: "'a list \<Rightarrow> nat \<Rightarrow> error + 'a" where
  "list_getitem xs i = (if i < length xs then Inr (xs ! i) else Inl IndexError)"

definition dict_getitem :: "('k \<rightharpoonup> 'a) \<Rightarrow> 'k \<Rightarrow> error + 'a" where
  "dict_getitem d k = (case d k of None \<Rightarrow> Inl KeyError | Some v \<Rightarrow> Inr v)"

subsection \<open>\<open>HuggingfaceDataset\<close>\<close>


subsection \<open>\<open>TextOnlyDataset\<close>\<close>

text \<open>
  The three nested comprehensions of \<open>TextOnlyDataset.run\<close>, innermost first: the fields
  of one instance, the instances of one split, the splits of the dataset.
\<close>

fun text_only_fields :: "string set \<Rightarrow> (string \<times> obj) list \<Rightarrow> obj list" where
  "text_only_fields fields_to_keep [] = []"
| "text_only_fields fields_to_keep ((field_name, field_value) # items) =
     (if field_name \<in> fields_to_keep
      then Dct [(''text'', field_value)] # text_only_fields fields_to_keep items
      else text_only_fields fields_to_keep items)"

fun text_only_split :: "string set \<Rightarrow> obj list \<Rightarrow> error + obj list" where
  "text_only_split fields_to_keep [] = Inr []"
| "text_only_split fields_to_keep (instance # rest) =
     (case py_items instance of
        Inl e \<Rightarrow> Inl e
      | Inr items \<Rightarrow>
          (case text_only_split fields_to_keep rest of
             Inl e \<Rightarrow> Inl e
           | Inr out \<Rightarrow> Inr (text_only_fields fields_to_keep items @ out)))"

fun text_only_splits :: "string set \<Rightarrow> (string \<times> obj) list \<Rightarrow> error + (string \<times> obj) list" where
  "text_only_splits fields_to_keep [] = Inr []"
| "text_only_splits fields_to_keep ((split_name, split) # rest) =
     (case py_iter split of
        Inl e \<Rightarrow> Inl e
      | Inr instances \<Rightarrow>
          (case text_only_split fields_to_keep instances of
             Inl e \<Rightarrow> Inl e
           | Inr out \<Rightarrow>
               (case text_only_splits fields_to_keep rest of
                  Inl e \<Rightarrow> Inl e
                | Inr outs \<Rightarrow> Inr ((split_name, Lst out) # outs))))"

definition TextOnlyDataset_run ::
  "AllenNlpDataset \<Rightarrow> string set \<Rightarrow> 'v store \<Rightarrow> error + (AllenNlpDataset \<times> 'v store)" where
  "TextOnlyDataset_run input fields_to_keep st =
     (case text_only_splits fields_to_keep (splits input) of
        Inl e \<Rightarrow> Inl e
      | Inr new_splits \<Rightarrow> Inr (input\<lparr>splits := new_splits\<rparr>, st))"

subsection \<open>The instances that \<open>TextOnlyDataset\<close> keeps\<close>

text \<open>
  A mapping is a dict or an \<open>Instance\<close>. A split of mappings can be iterated and all its
  elements are mappings: on such splits, and on no others, the comprehensions of
  \<open>TextOnlyDataset.run\<close> raise nothing. The rows of a split, the (field name, value) pairs
  of a row, and the instances kept from a split: one \<open>{"text": v}\<close> for every pair of every
  row whose field name is in \<open>fields_to_keep\<close>, in input order.
\<close>

fun is_mapping :: "obj \<Rightarrow> bool" where
  "is_mapping (Dct items) = True"
| "is_mapping (Instance fs) = True"
| "is_mapping _ = False"

definition split_of_mappings :: "obj \<Rightarrow> bool" where
  "split_of_mappings split =
     (case py_iter split of Inr rows \<Rightarrow> list_all is_mapping rows | Inl e \<Rightarrow> False)"

definition rows_of :: "obj \<Rightarrow> obj list" where
  "rows_of split = (case py_iter split of Inr rows \<Rightarrow> rows | Inl e \<Rightarrow> [])"

definition items_of :: "obj \<Rightarrow> (string \<times> obj) list" where
  "items_of row = (case py_items row of Inr items \<Rightarrow> items | Inl e \<Rightarrow> [])"

definition kept_texts :: "string set \<Rightarrow> obj \<Rightarrow> obj list" where
  "kept_texts fields_to_keep split =
     map (\<lambda>kv. Dct [(''text'', snd kv)])
       (filter (\<lambda>kv. fst kv \<in> fields_to_keep) (concat (map items_of (rows_of split))))"


subsection \<open>\<open>Tokenize\<close>\<close>

text \<open>\<open>prefix.lstrip(".")\<close> and \<open>str(i)\<close> of a list index.\<close>

definition lstrip_dots :: "string \<Rightarrow> string" where
  "lstrip_dots s = dropWhile (\<lambda>c. c = CHR ''.'') s"

function str_nat :: "nat \<Rightarrow> string" where
  "str_nat n =
     (if n < 10 then [''0123456789'' ! n]
      else str_nat (n div 10) @ [''0123456789'' ! (n mod 10)])"
  by pat_completeness auto
termination
  by (relation "measure id") auto

declare str_nat.simps [simp del]

text \<open>
  \<open>[re.compile(r) for r in fields_to_tokenize]\<close>, and the two definitions of
  \<open>should_tokenize_field\<close>: without a list of fields every field is tokenized; with one, a
  field is tokenized when the first regular expression that fully matches it is found.
\<close>

fun compile_all :: "('tok, 'v) libs \<Rightarrow> string list \<Rightarrow> error + (string \<Rightarrow> bool) list" where
  "compile_all L [] = Inr []"
| "compile_all L (r # rs) =
     (case re_compile L r of
        Inl e \<Rightarrow> Inl e
      | Inr c \<Rightarrow> (case compile_all L rs of Inl e \<Rightarrow> Inl e | Inr cs \<Rightarrow> Inr (c # cs)))"

definition compile_fields ::
  "('tok, 'v) libs \<Rightarrow> string list option \<Rightarrow> error + (string \<Rightarrow> bool) list option" where
  "compile_fields L fields_to_tokenize =
     (case fields_to_tokenize of
        None \<Rightarrow> Inr None
      | Some rs \<Rightarrow> (case compile_all L rs of Inl e \<Rightarrow> Inl e | Inr cs \<Rightarrow> Inr (Some cs)))"

fun any_fullmatch :: "(string \<Rightarrow> bool) list \<Rightarrow> string \<Rightarrow> bool" where
  "any_fullmatch [] field_name = False"
| "any_fullmatch (r # rs) field_name = (if r field_name then True else any_fullmatch rs field_name)"

definition should_tokenize_field :: "(string \<Rightarrow> bool) list option \<Rightarrow> string \<Rightarrow> bool" where
  "should_tokenize_field regexes_to_tokenize field_name =
     (case regexes_to_tokenize of
        None \<Rightarrow> True
      | Some rs \<Rightarrow> any_fullmatch rs field_name)"

text \<open>
  The generator \<open>find_string_objects\<close>, as the list of what it yields. The iterations over the
  items of a list (with their index) and of a dict are the two auxiliary functions. A
  \<open>Dataset\<close> is neither a \<open>List\<close> nor a \<open>Dict\<close>: nothing is yielded for it.
\<close>

fun find_string_objects :: "(string \<Rightarrow> bool) \<Rightarrow> obj \<Rightarrow> string \<Rightarrow> (string \<times> string) list"
  and find_in_list :: "(string \<Rightarrow> bool) \<Rightarrow> obj list \<Rightarrow> nat \<Rightarrow> string \<Rightarrow> (string \<times> string) list"
  and find_in_items :: "(string \<Rightarrow> bool) \<Rightarrow> (string \<times> obj) list \<Rightarrow> string \<Rightarrow> (string \<times> string) list"
where
  "find_string_objects stf (Str s) prefix =
     (if stf (lstrip_dots prefix) then [(lstrip_dots prefix, s)] else [])"
| "find_string_objects stf (Lst items) prefix = find_in_list stf items 0 (lstrip_dots prefix)"
| "find_string_objects stf (Dct items) prefix = find_in_items stf items (lstrip_dots prefix)"
| "find_string_objects stf (IntObj n) prefix = []"
| "find_string_objects stf NoneObj prefix = []"
| "find_string_objects stf (Dset rows) prefix = []"
| "find_string_objects stf (FieldObj f) prefix = []"
| "find_string_objects stf (Instance fs) prefix = []"
| "find_in_list stf [] i prefix = []"
| "find_in_list stf (item # items) i prefix =
     find_string_objects stf item (prefix @ ''.'' @ str_nat i) @ find_in_list stf items (Suc i) prefix"
| "find_in_items stf [] prefix = []"
| "find_in_items stf ((name, item) # items) prefix =
     find_string_objects stf item (prefix @ ''.'' @ name) @ find_in_items stf items prefix"

text \<open>
  The loop that fills \<open>field_names_used\<close> (a set, kept as the list of its elements in the
  order of their first insertion) and \<open>strings\<close>. The logging of the field names has no
  effect on the result and is left out.
\<close>

definition set_add :: "'a \<Rightarrow> 'a list \<Rightarrow> 'a list" where
  "set_add x xs = (if x \<in> set xs then xs else xs @ [x])"

fun collect_found ::
  "(string \<times> string) list \<Rightarrow> string list \<times> string list \<Rightarrow> string list \<times> string list" where
  "collect_found [] acc = acc"
| "collect_found ((name, string) # rest) (field_names_used, strings) =
     collect_found rest (set_add name field_names_used, strings @ [string])"

fun collect_instances ::
  "(string \<Rightarrow> bool) \<Rightarrow> obj list \<Rightarrow> string list \<times> string list \<Rightarrow> string list \<times> string list" where
  "collect_instances stf [] acc = acc"
| "collect_instances stf (instance # rest) acc =
     collect_instances stf rest (collect_found (find_string_objects stf instance '''') acc)"

fun collect_splits ::
  "(string \<Rightarrow> bool) \<Rightarrow> (string \<times> obj) list \<Rightarrow> string list \<times> string list
     \<Rightarrow> error + (string list \<times> string list)" where
  "collect_splits stf [] acc = Inr acc"
| "collect_splits stf ((split_name, instances) # rest) acc =
     (case py_iter instances of
        Inl e \<Rightarrow> Inl e
      | Inr is \<Rightarrow> collect_splits stf rest (collect_instances stf is acc))"

text \<open>The arguments of the call of \<open>batch_encode_plus\<close> in \<open>Tokenize.run\<close>.\<close>

definition Tokenize_encode_args :: "bool \<Rightarrow> int option \<Rightarrow> bool \<Rightarrow> bool \<Rightarrow> encode_args" where
  "Tokenize_encode_args add_special max_len special_mask offsets =
     \<lparr>add_special_tokens = add_special,
      truncation = (max_len \<noteq> None),
      max_length = max_len,
      return_token_type_ids = True,
      return_attention_mask = False,
      return_special_tokens_mask = special_mask,
      return_offsets_mapping = offsets\<rparr>"

text \<open>
  The field made from entry \<open>i\<close> of the encoding: the value of the dict comprehension
  \<open>string_to_field\<close>. The arguments of \<open>TransformerTextField\<close> are evaluated in their
  order: an entry that the encoding does not have raises \<open>IndexError\<close>, an id that does not
  fit 32 bits raises \<open>RuntimeError\<close>.
\<close>

definition optional_entry ::
  "'a list option \<Rightarrow> nat \<Rightarrow> ('a \<Rightarrow> error + tensor) \<Rightarrow> error + tensor option" where
  "optional_entry column i to_tensor =
     (case column of
        None \<Rightarrow> Inr None
      | Some xs \<Rightarrow>
          (case list_getitem xs i of
             Inl e \<Rightarrow> Inl e
           | Inr x \<Rightarrow> (case to_tensor x of Inl e \<Rightarrow> Inl e | Inr t \<Rightarrow> Inr (Some t))))"

definition field_of_entry ::
  "('tok, 'v) libs \<Rightarrow> 'tok \<Rightarrow> BatchEncoding \<Rightarrow> nat \<Rightarrow> error + TransformerTextField" where
  "field_of_entry L tokenizer encoded i =
     (case list_getitem (enc_input_ids encoded) i of
        Inl e \<Rightarrow> Inl e
      | Inr ids \<Rightarrow>
     (case tensor_int32 ids of
        Inl e \<Rightarrow> Inl e
      | Inr ids_tensor \<Rightarrow>
     (case list_getitem (enc_token_type_ids encoded) i of
        Inl e \<Rightarrow> Inl e
      | Inr tts \<Rightarrow>
     (case tensor_int32 tts of
        Inl e \<Rightarrow> Inl e
      | Inr tts_tensor \<Rightarrow>
     (case optional_entry (enc_attention_mask encoded) i tensor_bool of
        Inl e \<Rightarrow> Inl e
      | Inr am \<Rightarrow>
     (case optional_entry (enc_special_tokens_mask encoded) i tensor_bool of
        Inl e \<Rightarrow> Inl e
      | Inr sm \<Rightarrow>
     (case optional_entry (enc_offset_mapping encoded) i tensor_int32_pairs of
        Inl e \<Rightarrow> Inl e
      | Inr om \<Rightarrow>
          Inr \<lparr>input_ids = ids_tensor,
               token_type_ids = Some tts_tensor,
               attention_mask = am,
               special_tokens_mask = sm,
               offsets_mapping = om,
               padding_token_id = pad_token_id L tokenizer\<rparr>)))))))"

fun make_fields ::
  "('tok, 'v) libs \<Rightarrow> 'tok \<Rightarrow> BatchEncoding \<Rightarrow> nat \<Rightarrow> string list
     \<Rightarrow> (string \<rightharpoonup> TransformerTextField) \<Rightarrow> error + (string \<rightharpoonup> TransformerTextField)" where
  "make_fields L tokenizer encoded i [] string_to_field = Inr string_to_field"
| "make_fields L tokenizer encoded i (s # strings) string_to_field =
     (case field_of_entry L tokenizer encoded i of
        Inl e \<Rightarrow> Inl e
      | Inr f \<Rightarrow> make_fields L tokenizer encoded (Suc i) strings (string_to_field(s \<mapsto> f)))"

text \<open>
  \<open>replace_string_objects\<close>: the lookup of a string raises \<open>KeyError\<close> when the string is
  not a key; the handler of the \<open>try\<close> statement catches \<open>KeyError\<close> and nothing else. The
  two comprehensions are the auxiliary functions.
\<close>

fun replace_string_objects :: "(string \<rightharpoonup> TransformerTextField) \<Rightarrow> obj \<Rightarrow> error + obj"
  and replace_in_list :: "(string \<rightharpoonup> TransformerTextField) \<Rightarrow> obj list \<Rightarrow> error + obj list"
  and replace_in_items ::
    "(string \<rightharpoonup> TransformerTextField) \<Rightarrow> (string \<times> obj) list \<Rightarrow> error + (string \<times> obj) list"
where
  "replace_string_objects string_to_field (Str s) =
     (case dict_getitem string_to_field s of
        Inr f \<Rightarrow> Inr (FieldObj (TextField f))
      | Inl e \<Rightarrow> if e = KeyError then Inr (Str s) else Inl e)"
| "replace_string_objects string_to_field (Lst items) =
     (case replace_in_list string_to_field items of Inl e \<Rightarrow> Inl e | Inr r \<Rightarrow> Inr (Lst r))"
| "replace_string_objects string_to_field (Dset rows) =
     (case replace_in_list string_to_field rows of Inl e \<Rightarrow> Inl e | Inr r \<Rightarrow> Inr (Lst r))"
| "replace_string_objects string_to_field (Dct items) =
     (case replace_in_items string_to_field items of Inl e \<Rightarrow> Inl e | Inr r \<Rightarrow> Inr (Dct r))"
| "replace_string_objects string_to_field (IntObj n) = Inr (IntObj n)"
| "replace_string_objects string_to_field NoneObj = Inr NoneObj"
| "replace_string_objects string_to_field (FieldObj f) = Inr (FieldObj f)"
| "replace_string_objects string_to_field (Instance fs) = Inr (Instance fs)"
| "replace_in_list string_to_field [] = Inr []"
| "replace_in_list string_to_field (i # items) =
     (case replace_string_objects string_to_field i of
        Inl e \<Rightarrow> Inl e
      | Inr r \<Rightarrow>
          (case replace_in_list string_to_field items of
             Inl e \<Rightarrow> Inl e
           | Inr rs \<Rightarrow> Inr (r # rs)))"
| "replace_in_items string_to_field [] = Inr []"
| "replace_in_items string_to_field ((key, v) # items) =
     (case replace_string_objects string_to_field v of
        Inl e \<Rightarrow> Inl e
      | Inr r \<Rightarrow>
          (case replace_in_items string_to_field items of
             Inl e \<Rightarrow> Inl e
           | Inr rs \<Rightarrow> Inr ((key, r) # rs)))"

fun replace_splits ::
  "(string \<rightharpoonup> TransformerTextField) \<Rightarrow> (string \<times> obj) list \<Rightarrow> error + (string \<times> obj) list" where
  "replace_splits string_to_field [] = Inr []"
| "replace_splits string_to_field ((split_name, split_data) # rest) =
     (case replace_string_objects string_to_field split_data of
        Inl e \<Rightarrow> Inl e
      | Inr r \<Rightarrow>
          (case replace_splits string_to_field rest of
             Inl e \<Rightarrow> Inl e
           | Inr rs \<Rightarrow> Inr ((split_name, r) # rs)))"

text \<open>
  The vocabulary: a deep copy of the input's one, or an empty one, is a new object; the
  loop over the set \<open>field_names_used\<close> then mutates that object.
\<close>

fun add_vocabs :: "('tok, 'v) libs \<Rightarrow> 'tok \<Rightarrow> nat \<Rightarrow> string list \<Rightarrow> 'v store \<Rightarrow> 'v store" where
  "add_vocabs L tokenizer r [] st = st"
| "add_vocabs L tokenizer r (name # names) st =
     add_vocabs L tokenizer r names (mutate r (add_transformer_vocab L tokenizer name) st)"

definition make_vocab ::
  "('tok, 'v) libs \<Rightarrow> 'tok \<Rightarrow> nat option \<Rightarrow> string list \<Rightarrow> 'v store \<Rightarrow> nat \<times> 'v store" where
  "make_vocab L tokenizer input_vocab field_names_used st =
     (let (r, st1) =
        (case input_vocab of
           Some v \<Rightarrow> new_object (cells st v) st
         | None \<Rightarrow> new_object (Vocabulary_empty L) st)
      in (r, add_vocabs L tokenizer r (set_iteration L field_names_used) st1))"

text \<open>The body of \<open>Tokenize.run\<close> after the tokenizer has been loaded and checked.\<close>

definition Tokenize_body ::
  "('tok, 'v) libs \<Rightarrow> 'tok \<Rightarrow> AllenNlpDataset \<Rightarrow> string list option \<Rightarrow> bool \<Rightarrow> int option
     \<Rightarrow> bool \<Rightarrow> bool \<Rightarrow> 'v store \<Rightarrow> error + (AllenNlpDataset \<times> 'v store)" where
  "Tokenize_body L tokenizer input fields_to_tokenize add_special max_len special_mask offsets st =
     (case compile_fields L fields_to_tokenize of
        Inl e \<Rightarrow> Inl e
      | Inr regexes_to_tokenize \<Rightarrow>
     (case collect_splits (should_tokenize_field regexes_to_tokenize) (splits input) ([], []) of
        Inl e \<Rightarrow> Inl e
      | Inr (field_names_used, strings) \<Rightarrow>
     (case batch_encode_plus L tokenizer (map Single strings)
             (Tokenize_encode_args add_special max_len special_mask offsets) of
        Inl e \<Rightarrow> Inl e
      | Inr encoded \<Rightarrow>
     (case make_fields L tokenizer encoded 0 strings Map.empty of
        Inl e \<Rightarrow> Inl e
      | Inr string_to_field \<Rightarrow>
     (case replace_splits string_to_field (splits input) of
        Inl e \<Rightarrow> Inl e
      | Inr new_splits \<Rightarrow>
          (let (r, st') = make_vocab L tokenizer (vocab input) field_names_used st
           in Inr (\<lparr>splits = new_splits, vocab = Some r, metadata = []\<rparr>, st')))))))"

definition Tokenize_run ::
  "('tok, 'v) libs \<Rightarrow> string \<Rightarrow> AllenNlpDataset \<Rightarrow> string list option \<Rightarrow> bool \<Rightarrow> int option
     \<Rightarrow> bool \<Rightarrow> bool \<Rightarrow> 'v store \<Rightarrow> error + (AllenNlpDataset \<times> 'v store)" where
  "Tokenize_run L tokenizer_name input fields_to_tokenize add_special max_len special_mask offsets st =
     (case get_tokenizer L tokenizer_name of
        Inl e \<Rightarrow> Inl e
      | Inr tokenizer \<Rightarrow>
          if pad_token_type_id L tokenizer = 0
          then Tokenize_body L tokenizer input fields_to_tokenize add_special max_len
                 special_mask offsets st
          else Inl AssertionError)"

subsection \<open>\<open>PiqaInstances\<close>\<close>

text \<open>
  The dict that the first comprehension builds for every row of the loaded dataset. The
  subscripts of the row are evaluated in the order of the dict display; a missing key
  raises \<open>KeyError\<close>.
\<close>

record piqa_instance =
  correct_alternative :: obj
  alternatives :: "(obj \<times> obj) list"

definition piqa_instance_of :: "(string \<times> obj) list \<Rightarrow> error + piqa_instance" where
  "piqa_instance_of instance =
     (case dict_getitem (map_of instance) ''label'' of
        Inl e \<Rightarrow> Inl e
      | Inr label \<Rightarrow>
     (case dict_getitem (map_of instance) ''goal'' of
        Inl e \<Rightarrow> Inl e
      | Inr goal1 \<Rightarrow>
     (case dict_getitem (map_of instance) ''sol1'' of
        Inl e \<Rightarrow> Inl e
      | Inr sol1 \<Rightarrow>
     (case dict_getitem (map_of instance) ''goal'' of
        Inl e \<Rightarrow> Inl e
      | Inr goal2 \<Rightarrow>
     (case dict_getitem (map_of instance) ''sol2'' of
        Inl e \<Rightarrow> Inl e
      | Inr sol2 \<Rightarrow>
          Inr \<lparr>correct_alternative = label,
               alternatives = [(goal1, sol1), (goal2, sol2)]\<rparr>)))))"

fun piqa_instances_of :: "(string \<times> obj) list list \<Rightarrow> error + piqa_instance list" where
  "piqa_instances_of [] = Inr []"
| "piqa_instances_of (instance # instances) =
     (case piqa_instance_of instance of
        Inl e \<Rightarrow> Inl e
      | Inr x \<Rightarrow>
          (case piqa_instances_of instances of Inl e \<Rightarrow> Inl e | Inr xs \<Rightarrow> Inr (x # xs)))"

fun piqa_dataset ::
  "(string \<times> (string \<times> obj) list list) list \<Rightarrow> error + (string \<times> piqa_instance list) list" where
  "piqa_dataset [] = Inr []"
| "piqa_dataset ((split_name, instances) # rest) =
     (case piqa_instances_of instances of
        Inl e \<Rightarrow> Inl e
      | Inr xs \<Rightarrow>
          (case piqa_dataset rest of Inl e \<Rightarrow> Inl e | Inr d \<Rightarrow> Inr ((split_name, xs) # d)))"

text \<open>
  The second comprehension: one call of \<open>batch_encode_plus\<close> per split, on the
  alternatives of all its instances in order.
\<close>

definition all_alternatives :: "piqa_instance list \<Rightarrow> tok_input list" where
  "all_alternatives instances =
     concat (map (\<lambda>instance. map (\<lambda>alternative. Pair (fst alternative) (snd alternative))
                                (alternatives instance)) instances)"

definition Piqa_encode_args :: "int \<Rightarrow> encode_args" where
  "Piqa_encode_args max_len =
     \<lparr>add_special_tokens = True,
      truncation = True,
      max_length = Some max_len,
      return_token_type_ids = True,
      return_attention_mask = False,
      return_special_tokens_mask = False,
      return_offsets_mapping = False\<rparr>"

fun piqa_tokenized ::
  "('tok, 'v) libs \<Rightarrow> 'tok \<Rightarrow> int \<Rightarrow> (string \<times> piqa_instance list) list
     \<Rightarrow> error + (string \<times> BatchEncoding) list" where
  "piqa_tokenized L tokenizer max_len [] = Inr []"
| "piqa_tokenized L tokenizer max_len ((split_name, instances) # rest) =
     (case batch_encode_plus L tokenizer (all_alternatives instances) (Piqa_encode_args max_len) of
        Inl e \<Rightarrow> Inl e
      | Inr encoded \<Rightarrow>
          (case piqa_tokenized L tokenizer max_len rest of
             Inl e \<Rightarrow> Inl e
           | Inr t \<Rightarrow> Inr ((split_name, encoded) # t)))"

text \<open>
  The loop that builds the instances. The field of one alternative takes two entries of
  the encoding (\<open>IndexError\<close> when the encoding does not have one, \<open>RuntimeError\<close> when
  an id does not fit 32 bits); the other arguments of \<open>TransformerTextField\<close> have their
  defaults.
  Comparing the label with 0 raises \<open>TypeError\<close> when the label is not a number.
\<close>

definition alternative_field :: "BatchEncoding \<Rightarrow> nat \<Rightarrow> error + field" where
  "alternative_field tokenized_alts alt_index =
     (case list_getitem (enc_input_ids tokenized_alts) alt_index of
        Inl e \<Rightarrow> Inl e
      | Inr ids \<Rightarrow>
     (case tensor_int32 ids of
        Inl e \<Rightarrow> Inl e
      | Inr ids_tensor \<Rightarrow>
     (case list_getitem (enc_token_type_ids tokenized_alts) alt_index of
        Inl e \<Rightarrow> Inl e
      | Inr tts \<Rightarrow>
     (case tensor_int32 tts of
        Inl e \<Rightarrow> Inl e
      | Inr tts_tensor \<Rightarrow>
          Inr (TextField
                 \<lparr>input_ids = ids_tensor,
                  token_type_ids = Some tts_tensor,
                  attention_mask = None,
                  special_tokens_mask = None,
                  offsets_mapping = None,
                  padding_token_id = Some 0\<rparr>)))))"

definition instance_fields :: "obj \<Rightarrow> field \<Rightarrow> error + (string \<times> field) list" where
  "instance_fields label alts =
     (case label of
        IntObj n \<Rightarrow>
          Inr (if n \<ge> 0
               then AList.update ''correct_alternative'' (IndexField n alts) [(''alternatives'', alts)]
               else [(''alternatives'', alts)])
      | _ \<Rightarrow> Inl TypeError)"

fun results_per_split :: "BatchEncoding \<Rightarrow> nat \<Rightarrow> piqa_instance list \<Rightarrow> error + obj list" where
  "results_per_split tokenized_alts i [] = Inr []"
| "results_per_split tokenized_alts i (instance # instances) =
     (case alternative_field tokenized_alts (2 * i) of
        Inl e \<Rightarrow> Inl e
      | Inr alt1 \<Rightarrow>
     (case alternative_field tokenized_alts (2 * i + 1) of
        Inl e \<Rightarrow> Inl e
      | Inr alt2 \<Rightarrow>
     (case instance_fields (correct_alternative instance) (ListField [alt1, alt2]) of
        Inl e \<Rightarrow> Inl e
      | Inr fs \<Rightarrow>
     (case results_per_split tokenized_alts (Suc i) instances of
        Inl e \<Rightarrow> Inl e
      | Inr rest \<Rightarrow> Inr (Instance fs # rest)))))"

fun piqa_result ::
  "(string \<times> BatchEncoding) list \<Rightarrow> (string \<times> piqa_instance list) list
     \<Rightarrow> (string \<times> obj) list \<Rightarrow> error + (string \<times> obj) list" where
  "piqa_result tokenized [] result = Inr result"
| "piqa_result tokenized ((split_name, instances) # rest) result =
     (case dict_getitem (map_of tokenized) split_name of
        Inl e \<Rightarrow> Inl e
      | Inr tokenized_alts \<Rightarrow>
     (case results_per_split tokenized_alts 0 instances of
        Inl e \<Rightarrow> Inl e
      | Inr per_split \<Rightarrow>
          piqa_result tokenized rest (AList.update split_name (Lst per_split) result)))"

text \<open>The body of \<open>PiqaInstances.run\<close> after the tokenizer has been loaded and checked.\<close>

definition PiqaInstances_body ::
  "('tok, 'v) libs \<Rightarrow> 'tok \<Rightarrow> int \<Rightarrow> 'v store \<Rightarrow> error + (AllenNlpDataset \<times> 'v store)" where
  "PiqaInstances_body L tokenizer max_len st =
     (case load_dataset L ''piqa'' of
        Inl e \<Rightarrow> Inl e
      | Inr loaded \<Rightarrow>
     (case piqa_dataset loaded of
        Inl e \<Rightarrow> Inl e
      | Inr dataset \<Rightarrow>
     (case piqa_tokenized L tokenizer max_len dataset of
        Inl e \<Rightarrow> Inl e
      | Inr tokenized \<Rightarrow>
     (case piqa_result tokenized dataset [] of
        Inl e \<Rightarrow> Inl e
      | Inr result \<Rightarrow>
          (let (r, st1) = new_object (Vocabulary_empty L) st;
               st2 = mutate r (add_transformer_vocab L tokenizer ''tokens'') st1
           in Inr (\<lparr>splits = result, vocab = Some r, metadata = []\<rparr>, st2))))))"

definition PiqaInstances_run ::
  "('tok, 'v) libs \<Rightarrow> string \<Rightarrow> int \<Rightarrow> 'v store \<Rightarrow> error + (AllenNlpDataset \<times> 'v store)" where
  "PiqaInstances_run L tokenizer_name max_len st =
     (case get_tokenizer L tokenizer_name of
        Inl e \<Rightarrow> Inl e
      | Inr tokenizer \<Rightarrow>
          if pad_token_type_id L tokenizer = 0
          then PiqaInstances_body L tokenizer max_len st
          else Inl AssertionError)"

subsection \<open>Positions, field names and shapes\<close>

text \<open>
  The properties of \<open>Tokenize\<close> speak of the value at a position of an instance. A position
  is the list of the indices taken on the way down: into a list, into the rows of a
  \<open>Dataset\<close>, or into the items of a dict (in their order).
\<close>

fun subobj :: "obj \<Rightarrow> nat list \<Rightarrow> obj option" where
  "subobj x [] = Some x"
| "subobj (Lst items) (i # p) = (if i < length items then subobj (items ! i) p else None)"
| "subobj (Dset rows) (i # p) = (if i < length rows then subobj (rows ! i) p else None)"
| "subobj (Dct items) (i # p) = (if i < length items then subobj (snd (items ! i)) p else None)"
| "subobj _ (i # p) = None"

text \<open>
  The dotted field name under which \<open>find_string_objects\<close>, started with \<open>prefix\<close>, reaches
  a position: through lists and dicts only.
\<close>

fun dotted_name :: "obj \<Rightarrow> nat list \<Rightarrow> string \<Rightarrow> string option" where
  "dotted_name x [] prefix = Some (lstrip_dots prefix)"
| "dotted_name (Lst items) (i # p) prefix =
     (if i < length items
      then dotted_name (items ! i) p (lstrip_dots prefix @ ''.'' @ str_nat i)
      else None)"
| "dotted_name (Dct items) (i # p) prefix =
     (if i < length items
      then dotted_name (snd (items ! i)) p (lstrip_dots prefix @ ''.'' @ fst (items ! i))
      else None)"
| "dotted_name _ (i # p) prefix = None"

text \<open>
  A field name is selected for tokenization: every name when \<open>fields_to_tokenize\<close> is
  \<open>None\<close>, otherwise the names that one of the given regular expressions fully matches.
\<close>

definition selected :: "('tok, 'v) libs \<Rightarrow> string list option \<Rightarrow> string \<Rightarrow> bool" where
  "selected L fields_to_tokenize field_name =
     (case fields_to_tokenize of
        None \<Rightarrow> True
      | Some rs \<Rightarrow>
          list_ex (\<lambda>r. case re_compile L r of Inr c \<Rightarrow> c field_name | Inl e \<Rightarrow> False) rs)"

text \<open>
  \<open>same_shape x y\<close>: \<open>y\<close> has the nesting structure of \<open>x\<close>. A dict has the same keys in the
  same order, a list or the rows of a \<open>Dataset\<close> have become a list of the same length, the
  elements correspond in order, a leaf that is not a string is the same, and a string is
  the same string or has become a \<open>TransformerTextField\<close>.
\<close>

fun is_text_field :: "obj \<Rightarrow> bool" where
  "is_text_field (FieldObj (TextField f)) = True"
| "is_text_field _ = False"

fun same_shape :: "obj \<Rightarrow> obj \<Rightarrow> bool"
  and same_shape_list :: "obj list \<Rightarrow> obj list \<Rightarrow> bool"
  and same_shape_items :: "(string \<times> obj) list \<Rightarrow> (string \<times> obj) list \<Rightarrow> bool"
where
  "same_shape (Str s) y = (y = Str s \<or> is_text_field y)"
| "same_shape (Lst items) y = (case y of Lst ys \<Rightarrow> same_shape_list items ys | _ \<Rightarrow> False)"
| "same_shape (Dset rows) y = (case y of Lst ys \<Rightarrow> same_shape_list rows ys | _ \<Rightarrow> False)"
| "same_shape (Dct items) y = (case y of Dct ys \<Rightarrow> same_shape_items items ys | _ \<Rightarrow> False)"
| "same_shape (IntObj n) y = (y = IntObj n)"
| "same_shape NoneObj y = (y = NoneObj)"
| "same_shape (FieldObj f) y = (y = FieldObj f)"
| "same_shape (Instance fs) y = (y = Instance fs)"
| "same_shape_list [] ys = (ys = [])"
| "same_shape_list (x # xs) ys =
     (case ys of [] \<Rightarrow> False | y # ys' \<Rightarrow> same_shape x y \<and> same_shape_list xs ys')"
| "same_shape_items [] ys = (ys = [])"
| "same_shape_items ((key, x) # xs) ys =
     (case ys of [] \<Rightarrow> False
      | (key', y) # ys' \<Rightarrow> key' = key \<and> same_shape x y \<and> same_shape_items xs ys')"

subsection \<open>An instance of the libraries\<close>

text \<open>
  Small libraries on which the steps can be evaluated: two tokenizers (named by their
  \<open>pad_token_type_id\<close>), an encoding that depends on the lengths of the texts only,
  regular expressions without operators, a dataset of three rows, vocabularies as the
  sets of their namespaces.
\<close>

fun example_ids :: "tok_input \<Rightarrow> int list" where
  "example_ids (Single s) = [101, int (length s), 102]"
| "example_ids (Pair (Str a) (Str b)) = [101, int (length a), 102, int (length b), 102]"
| "example_ids (Pair _ _) = []"

fun example_types :: "tok_input \<Rightarrow> int list" where
  "example_types (Single s) = [0, 0, 0]"
| "example_types (Pair (Str a) (Str b)) = [0, 0, 0, 1, 1]"
| "example_types (Pair _ _) = []"

definition example_piqa :: "(string \<times> (string \<times> obj) list list) list" where
  "example_piqa =
     [(''train'',
         [[(''goal'', Str ''open a jar''), (''sol1'', Str ''twist''), (''sol2'', Str ''pull''),
           (''label'', IntObj 0)],
          [(''goal'', Str ''boil water''), (''sol1'', Str ''freezer''), (''sol2'', Str ''kettle''),
           (''label'', IntObj 1)]]),
      (''test'',
         [[(''goal'', Str ''dry a shirt''), (''sol1'', Str ''sun''), (''sol2'', Str ''rain''),
           (''label'', IntObj (- 1))]])]"

definition example_libs :: "(int, string set) libs" where
  "example_libs =
     \<lparr>get_tokenizer = (\<lambda>name. if name = ''bert'' then Inr 0
                               else if name = ''xlnet'' then Inr 3
                               else Inl (LibraryError ''unknown tokenizer'')),
      pad_token_type_id = (\<lambda>tokenizer. tokenizer),
      pad_token_id = (\<lambda>tokenizer. Some 0),
      batch_encode_plus = (\<lambda>tokenizer inputs args.
         Inr \<lparr>enc_input_ids = map example_ids inputs,
              enc_token_type_ids = map example_types inputs,
              enc_attention_mask = None,
              enc_special_tokens_mask = None,
              enc_offset_mapping = None\<rparr>),
      re_compile = (\<lambda>r. Inr (\<lambda>field_name. field_name = r)),
      load_dataset = (\<lambda>name. if name = ''piqa'' then Inr example_piqa
                              else Inl (LibraryError ''unknown dataset'')),
      Vocabulary_empty = {},
      add_transformer_vocab = (\<lambda>tokenizer namespace v. insert namespace v),
      set_iteration = (\<lambda>names. names)\<rparr>"


definition example_store :: "string set store" where
  "example_store = \<lparr>cells = (\<lambda>r. {}), next_ref = 0\<rparr>"

definition example_input :: AllenNlpDataset where
  "example_input =
     \<lparr>splits =
        [(''train'', Lst [Dct [(''question'', Str ''why''), (''answers'', Lst [Str ''so'', Str ''why'']),
                              (''id'', IntObj 7)]]),
         (''dev'', Dset [Dct [(''question'', Str ''when''), (''answers'', Lst []), (''id'', IntObj 8)]])],
      vocab = None,
      metadata = []\<rparr>"

text \<open>The field that the example tokenizer gives to a single text of \<open>n\<close> characters.\<close>

definition example_field :: "int \<Rightarrow> TransformerTextField" where
  "example_field n =
     \<lparr>input_ids = torch_tensor [101, n, 102] int32,
      token_type_ids = Some (torch_tensor [0, 0, 0] int32),
      attention_mask = None,
      special_tokens_mask = None,
      offsets_mapping = None,
      padding_token_id = Some 0\<rparr>"

text \<open>
  What \<open>Tokenize\<close> returns for the example input when only the field \<open>question\<close> is to
  be tokenized, and what \<open>PiqaInstances\<close> returns for the example dataset.
\<close>

definition example_tokenized :: AllenNlpDataset where
  "example_tokenized =
     \<lparr>splits =
        [(''train'', Lst [Dct [(''question'', FieldObj (TextField (example_field 3))),
                              (''answers'', Lst [Str ''so'', FieldObj (TextField (example_field 3))]),
                              (''id'', IntObj 7)]]),
         (''dev'', Lst [Dct [(''question'', FieldObj (TextField (example_field 4))),
                            (''answers'', Lst []), (''id'', IntObj 8)]])],
      vocab = Some 0,
      metadata = []\<rparr>"

definition example_pair_field :: "int \<Rightarrow> int \<Rightarrow> field" where
  "example_pair_field m n =
     TextField
       \<lparr>input_ids = torch_tensor [101, m, 102, n, 102] int32,
        token_type_ids = Some (torch_tensor [0, 0, 0, 1, 1] int32),
        attention_mask = None,
        special_tokens_mask = None,
        offsets_mapping = None,
        padding_token_id = Some 0\<rparr>"

definition example_instances :: AllenNlpDataset where
  "example_instances =
     \<lparr>splits =
        [(''train'',
            Lst [Instance
                   [(''alternatives'', ListField [example_pair_field 10 5, example_pair_field 10 4]),
                    (''correct_alternative'',
                       IndexField 0 (ListField [example_pair_field 10 5, example_pair_field 10 4]))],
                 Instance
                   [(''alternatives'', ListField [example_pair_field 10 7, example_pair_field 10 6]),
                    (''correct_alternative'',
                       IndexField 1 (ListField [example_pair_field 10 7, example_pair_field 10 6]))]]),
         (''test'',
            Lst [Instance
                   [(''alternatives'', ListField [example_pair_field 11 3, example_pair_field 11 4])]])],
      vocab = Some 0,
      metadata = []\<rparr>"

subsection \<open>Properties of \<open>TextOnlyDataset\<close>\<close>

lemma text_only_fields_eq:
  "text_only_fields keep items =
     map (\<lambda>kv. Dct [(''text'', snd kv)]) (filter (\<lambda>kv. fst kv \<in> keep) items)"
  by (induction keep items rule: text_only_fields.induct) simp_all

lemma py_items_mapping: "is_mapping row \<Longrightarrow> py_items row = Inr (items_of row)"
  by (cases row) (simp_all add: items_of_def)

lemma py_items_other: "\<not> is_mapping row \<Longrightarrow> py_items row = Inl AttributeError"
  by (cases row) simp_all

lemma text_only_split_eq:
  "list_all is_mapping rows \<Longrightarrow>
   text_only_split keep rows =
     Inr (map (\<lambda>kv. Dct [(''text'', snd kv)])
            (filter (\<lambda>kv. fst kv \<in> keep) (concat (map items_of rows))))"
proof (induction rows)
  case Nil
  then show ?case by simp
next
  case (Cons r rows)
  then have "py_items r = Inr (items_of r)"
    by (simp add: py_items_mapping)
  with Cons show ?case
    by (simp add: text_only_fields_eq)
qed

lemma text_only_split_fails:
  "\<not> list_all is_mapping rows \<Longrightarrow> text_only_split keep rows = Inl AttributeError"
proof (induction rows)
  case Nil
  then show ?case by simp
next
  case (Cons r rows)
  show ?case
  proof (cases "is_mapping r")
    case True
    with Cons.prems have "\<not> list_all is_mapping rows" by simp
    with Cons.IH True show ?thesis by (simp add: py_items_mapping)
  next
    case False
    then show ?thesis by (simp add: py_items_other)
  qed
qed

lemma py_iter_error: "py_iter x = Inl e \<Longrightarrow> e = TypeError"
  by (induction x rule: py_iter.induct) simp_all

lemma text_only_splits_eq:
  "list_all (\<lambda>p. split_of_mappings (snd p)) sps \<Longrightarrow>
   text_only_splits keep sps = Inr (map (\<lambda>p. (fst p, Lst (kept_texts keep (snd p)))) sps)"
proof (induction sps)
  case Nil
  then show ?case by simp
next
  case (Cons p sps)
  obtain split_name split where p: "p = (split_name, split)"
    by (cases p)
  from Cons.prems have "split_of_mappings split"
    by (simp add: p)
  then have one: "py_iter split = Inr (rows_of split)" "list_all is_mapping (rows_of split)"
    by (auto simp: split_of_mappings_def rows_of_def split: sum.splits)
  from Cons have rest: "text_only_splits keep sps =
      Inr (map (\<lambda>p. (fst p, Lst (kept_texts keep (snd p)))) sps)"
    by simp
  show ?case
    using one rest by (simp add: p text_only_split_eq kept_texts_def)
qed

lemma text_only_splits_fails:
  "\<not> list_all (\<lambda>p. split_of_mappings (snd p)) sps \<Longrightarrow>
   text_only_splits keep sps = Inl TypeError \<or> text_only_splits keep sps = Inl AttributeError"
proof (induction sps)
  case Nil
  then show ?case by simp
next
  case (Cons p sps)
  obtain split_name split where p: "p = (split_name, split)"
    by (cases p)
  show ?case
  proof (cases "py_iter split")
    case (Inl e)
    with py_iter_error[OF Inl] show ?thesis by (simp add: p)
  next
    case (Inr rows)
    show ?thesis
    proof (cases "list_all is_mapping rows")
      case False
      with Inr show ?thesis by (simp add: p text_only_split_fails)
    next
      case True
      with Inr Cons.prems have "\<not> list_all (\<lambda>p. split_of_mappings (snd p)) sps"
        by (simp add: p split_of_mappings_def)
      from Cons.IH[OF this] Inr True show ?thesis
        by (auto simp: p text_only_split_eq)
    qed
  qed
qed

text \<open>
  C5. Field filtering by \<open>TextOnlyDataset\<close>, for every input dataset. When every split can
  be iterated and every instance is a mapping (a dict or an \<open>Instance\<close>), \<open>run\<close> returns a
  dataset with the same split names in the same order, where each split is the list of the
  instances \<open>{"text": v}\<close>, one for each (instance, field) pair of the input split whose
  field name is in \<open>fields_to_keep\<close>, in input order; a pair whose field name is not in
  \<open>fields_to_keep\<close> gives no output instance. Vocabulary and metadata are those of the
  input. On every other input \<open>run\<close> returns nothing: iterating a split raises \<open>TypeError\<close>,
  or \<open>items\<close> of an instance raises \<open>AttributeError\<close>.
\<close>

theorem TextOnlyDataset_filters_fields:
  "(list_all (\<lambda>p. split_of_mappings (snd p)) (splits input) \<longrightarrow>
      TextOnlyDataset_run input fields_to_keep st =
        Inr (input\<lparr>splits :=
               map (\<lambda>p. (fst p, Lst (kept_texts fields_to_keep (snd p)))) (splits input)\<rparr>, st)) \<and>
   (\<not> list_all (\<lambda>p. split_of_mappings (snd p)) (splits input) \<longrightarrow>
      TextOnlyDataset_run input fields_to_keep st = Inl TypeError \<or>
      TextOnlyDataset_run input fields_to_keep st = Inl AttributeError)"
proof (intro conjI impI)
  assume "list_all (\<lambda>p. split_of_mappings (snd p)) (splits input)"
  then show "TextOnlyDataset_run input fields_to_keep st =
        Inr (input\<lparr>splits :=
               map (\<lambda>p. (fst p, Lst (kept_texts fields_to_keep (snd p)))) (splits input)\<rparr>, st)"
    by (simp add: TextOnlyDataset_run_def text_only_splits_eq)
next
  assume "\<not> list_all (\<lambda>p. split_of_mappings (snd p)) (splits input)"
  from text_only_splits_fails[OF this, of fields_to_keep]
  show "TextOnlyDataset_run input fields_to_keep st = Inl TypeError \<or>
      TextOnlyDataset_run input fields_to_keep st = Inl AttributeError"
    by (auto simp: TextOnlyDataset_run_def)
qed

text \<open>
  C5 on examples: a dataset with dicts and an \<open>Instance\<close> (as \<open>PiqaInstances\<close> returns them)
  among its rows, and a dataset with a row that is a number.
\<close>

theorem TextOnlyDataset_filters_fields_witness:
  "list_all (\<lambda>p. split_of_mappings (snd p))
     (splits \<lparr>splits = [(''train'', Lst [Dct [(''a'', Str ''x''), (''b'', Str ''y'')],
                                          Instance [(''b'', ListField []), (''a'', ListField [])],
                                          Dct [(''b'', Str ''z''), (''a'', IntObj 1)]]),
                          (''test'', Dset [])],
              vocab = None, metadata = []\<rparr>) \<and>
   TextOnlyDataset_run
     \<lparr>splits = [(''train'', Lst [Dct [(''a'', Str ''x''), (''b'', Str ''y'')],
                                 Instance [(''b'', ListField []), (''a'', ListField [])],
                                 Dct [(''b'', Str ''z''), (''a'', IntObj 1)]]),
                 (''test'', Dset [])],
      vocab = None, metadata = []\<rparr>
     {''a''} \<lparr>cells = (\<lambda>_. 0::nat), next_ref = 0\<rparr> =
   Inr (\<lparr>splits = [(''train'', Lst [Dct [(''text'', Str ''x'')],
                                     Dct [(''text'', FieldObj (ListField []))],
                                     Dct [(''text'', IntObj 1)]]),
                    (''test'', Lst [])],
         vocab = None, metadata = []\<rparr>,
        \<lparr>cells = (\<lambda>_. 0::nat), next_ref = 0\<rparr>) \<and>
   \<not> list_all (\<lambda>p. split_of_mappings (snd p))
     (splits \<lparr>splits = [(''train'', Lst [Dct [(''a'', Str ''x'')], IntObj 1])],
              vocab = None, metadata = []\<rparr>) \<and>
   TextOnlyDataset_run
     \<lparr>splits = [(''train'', Lst [Dct [(''a'', Str ''x'')], IntObj 1])], vocab = None, metadata = []\<rparr>
     {''a''} \<lparr>cells = (\<lambda>_. 0::nat), next_ref = 0\<rparr> = Inl AttributeError"
proof -
  have run: "TextOnlyDataset_run
     \<lparr>splits = [(''train'', Lst [Dct [(''a'', Str ''x'')], IntObj 1])], vocab = None, metadata = []\<rparr>
     {''a''} \<lparr>cells = (\<lambda>_. 0::nat), next_ref = 0\<rparr> = Inl AttributeError"
    by (simp add: TextOnlyDataset_run_def)
  from TextOnlyDataset_filters_fields
    [of "\<lparr>splits = [(''train'', Lst [Dct [(''a'', Str ''x''), (''b'', Str ''y'')],
                                     Instance [(''b'', ListField []), (''a'', ListField [])],
                                     Dct [(''b'', Str ''z''), (''a'', IntObj 1)]]),
                     (''test'', Dset [])],
          vocab = None, metadata = []\<rparr>"
        "{''a''}" "\<lparr>cells = (\<lambda>_. 0::nat), next_ref = 0\<rparr>"]
    TextOnlyDataset_filters_fields
    [of "\<lparr>splits = [(''train'', Lst [Dct [(''a'', Str ''x'')], IntObj 1])],
          vocab = None, metadata = []\<rparr>"
        "{''a''}" "\<lparr>cells = (\<lambda>_. 0::nat), next_ref = 0\<rparr>"]
    run
  show ?thesis
    by (simp add: kept_texts_def split_of_mappings_def rows_of_def items_of_def)
qed

subsection \<open>Properties of \<open>replace_string_objects\<close>\<close>

lemma replace_total_aux:
  "(\<exists>r. replace_string_objects m x = Inr r)"
  "(\<exists>rs. replace_in_list m xs = Inr rs)"
  "(\<exists>rs. replace_in_items m kvs = Inr rs)"
  by (induction m x and m xs and m kvs rule: replace_string_objects_replace_in_list_replace_in_items.induct)
     (auto simp: dict_getitem_def split: option.splits)

lemma replace_same_shape_aux:
  "replace_string_objects m x = Inr r \<Longrightarrow> same_shape x r"
  "replace_in_list m xs = Inr rs \<Longrightarrow> same_shape_list xs rs"
  "replace_in_items m kvs = Inr ks \<Longrightarrow> same_shape_items kvs ks"
  by (induction m x and m xs and m kvs arbitrary: r and rs and ks
       rule: replace_string_objects_replace_in_list_replace_in_items.induct)
     (auto simp: dict_getitem_def split: option.splits sum.splits)

lemma replace_in_list_nth:
  "replace_in_list m xs = Inr rs \<Longrightarrow>
     length rs = length xs \<and> (\<forall>i<length xs. replace_string_objects m (xs ! i) = Inr (rs ! i))"
proof (induction xs arbitrary: rs)
  case Nil
  then show ?case by simp
next
  case (Cons x xs)
  then show ?case
    by (auto split: sum.splits simp: nth_Cons split: nat.splits)
qed

lemma replace_in_items_nth:
  "replace_in_items m kvs = Inr rs \<Longrightarrow>
     length rs = length kvs \<and>
     (\<forall>i<length kvs. fst (rs ! i) = fst (kvs ! i) \<and>
        replace_string_objects m (snd (kvs ! i)) = Inr (snd (rs ! i)))"
proof (induction kvs arbitrary: rs)
  case Nil
  then show ?case by simp
next
  case (Cons kv kvs)
  obtain k v where kv: "kv = (k, v)" by (cases kv)
  from Cons show ?case
    by (auto split: sum.splits simp: kv nth_Cons split: nat.splits)
qed

lemma replace_subobj:
  "replace_string_objects m x = Inr r \<Longrightarrow> subobj x p = Some y \<Longrightarrow>
     \<exists>y'. subobj r p = Some y' \<and> replace_string_objects m y = Inr y'"
proof (induction p arbitrary: x r)
  case Nil
  then show ?case by simp
next
  case (Cons i p)
  show ?case
  proof (cases x)
    case (Lst items)
    with Cons.prems obtain rs where rs: "replace_in_list m items = Inr rs" "r = Lst rs"
      by (auto split: sum.splits)
    from Cons.prems Lst have i: "i < length items" "subobj (items ! i) p = Some y"
      by (auto split: if_splits)
    from replace_in_list_nth[OF rs(1)] i
    have "length rs = length items" "replace_string_objects m (items ! i) = Inr (rs ! i)"
      by auto
    with Cons.IH[OF this(2) i(2)] i rs show ?thesis by simp
  next
    case (Dset items)
    with Cons.prems obtain rs where rs: "replace_in_list m items = Inr rs" "r = Lst rs"
      by (auto split: sum.splits)
    from Cons.prems Dset have i: "i < length items" "subobj (items ! i) p = Some y"
      by (auto split: if_splits)
    from replace_in_list_nth[OF rs(1)] i
    have "length rs = length items" "replace_string_objects m (items ! i) = Inr (rs ! i)"
      by auto
    with Cons.IH[OF this(2) i(2)] i rs show ?thesis by simp
  next
    case (Dct items)
    with Cons.prems obtain rs where rs: "replace_in_items m items = Inr rs" "r = Dct rs"
      by (auto split: sum.splits)
    from Cons.prems Dct have i: "i < length items" "subobj (snd (items ! i)) p = Some y"
      by (auto split: if_splits)
    from replace_in_items_nth[OF rs(1)] i
    have "length rs = length items" "replace_string_objects m (snd (items ! i)) = Inr (snd (rs ! i))"
      by auto
    with Cons.IH[OF this(2) i(2)] i rs show ?thesis by simp
  qed (use Cons.prems in auto)
qed

subsection \<open>Properties of the collection of the strings\<close>

lemma find_in_list_nth:
  "i < length xs \<Longrightarrow>
   set (find_string_objects stf (xs ! i) (prefix @ ''.'' @ str_nat (k + i)))
     \<subseteq> set (find_in_list stf xs k prefix)"
proof (induction xs arbitrary: i k)
  case Nil
  then show ?case by simp
next
  case (Cons x xs)
  show ?case
  proof (cases i)
    case 0
    then show ?thesis by simp
  next
    case (Suc j)
    with Cons.prems have "j < length xs" by simp
    from Cons.IH[OF this, of "Suc k"] Suc show ?thesis by auto
  qed
qed

lemma find_in_items_nth:
  "i < length kvs \<Longrightarrow>
   set (find_string_objects stf (snd (kvs ! i)) (prefix @ ''.'' @ fst (kvs ! i)))
     \<subseteq> set (find_in_items stf kvs prefix)"
proof (induction kvs arbitrary: i)
  case Nil
  then show ?case by simp
next
  case (Cons kv kvs)
  obtain k v where kv: "kv = (k, v)" by (cases kv)
  show ?case
  proof (cases i)
    case 0
    then show ?thesis by (simp add: kv)
  next
    case (Suc j)
    with Cons.prems have "j < length kvs" by simp
    from Cons.IH[OF this] Suc show ?thesis by (auto simp: kv)
  qed
qed

lemma find_string_objects_complete:
  "subobj x p = Some (Str s) \<Longrightarrow> dotted_name x p prefix = Some name \<Longrightarrow> stf name \<Longrightarrow>
   (name, s) \<in> set (find_string_objects stf x prefix)"
proof (induction p arbitrary: x prefix)
  case Nil
  then show ?case by simp
next
  case (Cons i p)
  show ?case
  proof (cases x)
    case (Lst items)
    with Cons.prems have i: "i < length items" "subobj (items ! i) p = Some (Str s)"
      "dotted_name (items ! i) p (lstrip_dots prefix @ ''.'' @ str_nat i) = Some name"
      by (auto split: if_splits)
    from Cons.IH[OF i(2) i(3) Cons.prems(3)] find_in_list_nth[OF i(1), of stf "lstrip_dots prefix" 0]
    show ?thesis by (auto simp: Lst)
  next
    case (Dct items)
    with Cons.prems have i: "i < length items" "subobj (snd (items ! i)) p = Some (Str s)"
      "dotted_name (snd (items ! i)) p (lstrip_dots prefix @ ''.'' @ fst (items ! i)) = Some name"
      by (auto split: if_splits)
    from Cons.IH[OF i(2) i(3) Cons.prems(3)] find_in_items_nth[OF i(1), of stf "lstrip_dots prefix"]
    show ?thesis by (auto simp: Dct)
  qed (use Cons.prems in auto)
qed

lemma collect_found_eq:
  "collect_found found (names, strings) = (names', strings') \<Longrightarrow>
   strings' = strings @ map snd found \<and> set names' = set names \<union> fst ` set found"
proof (induction found arbitrary: names strings)
  case Nil
  then show ?case by simp
next
  case (Cons f found)
  obtain n s where f: "f = (n, s)" by (cases f)
  from Cons.prems Cons.IH[of "set_add n names" "strings @ [s]"]
  show ?case by (auto simp: f set_add_def split: if_splits)
qed

lemma collect_instances_eq:
  "collect_instances stf insts (names, strings) = (names', strings') \<Longrightarrow>
   strings' = strings @ concat (map (\<lambda>i. map snd (find_string_objects stf i '''')) insts) \<and>
   set names' = set names \<union> (\<Union>i \<in> set insts. fst ` set (find_string_objects stf i ''''))"
proof (induction insts arbitrary: names strings)
  case Nil
  then show ?case by simp
next
  case (Cons i insts)
  obtain n1 s1 where c: "collect_found (find_string_objects stf i '''') (names, strings) = (n1, s1)"
    by (cases "collect_found (find_string_objects stf i '''') (names, strings)")
  from collect_found_eq[OF c] Cons.prems Cons.IH[of n1 s1]
  show ?case by (auto simp: c)
qed

lemma collect_splits_mono:
  "collect_splits stf sps (names, strings) = Inr (names', strings') \<Longrightarrow>
   set names \<subseteq> set names' \<and> set strings \<subseteq> set strings'"
proof (induction sps arbitrary: names strings)
  case Nil
  then show ?case by simp
next
  case (Cons sp sps)
  obtain sn sd where sp: "sp = (sn, sd)" by (cases sp)
  from Cons.prems obtain insts where it: "py_iter sd = Inr insts"
    by (auto simp: sp split: sum.splits)
  obtain n1 s1 where c: "collect_instances stf insts (names, strings) = (n1, s1)"
    by (cases "collect_instances stf insts (names, strings)")
  from collect_instances_eq[OF c] Cons.prems Cons.IH[of n1 s1]
  show ?case by (auto simp: sp it c)
qed

lemma collect_splits_complete:
  "collect_splits stf sps (names, strings) = Inr (names', strings') \<Longrightarrow>
   k < length sps \<Longrightarrow> py_iter (snd (sps ! k)) = Inr insts \<Longrightarrow> inst \<in> set insts \<Longrightarrow>
   (name, s) \<in> set (find_string_objects stf inst '''') \<Longrightarrow>
   name \<in> set names' \<and> s \<in> set strings'"
proof (induction sps arbitrary: names strings k)
  case Nil
  then show ?case by simp
next
  case (Cons sp sps)
  obtain sn sd where sp: "sp = (sn, sd)" by (cases sp)
  from Cons.prems(1) obtain is0 where it: "py_iter sd = Inr is0"
    by (auto simp: sp split: sum.splits)
  obtain n1 s1 where c: "collect_instances stf is0 (names, strings) = (n1, s1)"
    by (cases "collect_instances stf is0 (names, strings)")
  from Cons.prems(1) have rest: "collect_splits stf sps (n1, s1) = Inr (names', strings')"
    by (simp add: sp it c)
  show ?case
  proof (cases k)
    case 0
    with Cons.prems(3) it have "insts = is0" by (simp add: sp)
    with collect_instances_eq[OF c] Cons.prems(4,5)
    have "name \<in> set n1 \<and> s \<in> set s1" by force
    with collect_splits_mono[OF rest] show ?thesis by auto
  next
    case (Suc j)
    with Cons.prems have "j < length sps" "py_iter (snd (sps ! j)) = Inr insts" by simp_all
    from Cons.IH[OF rest this Cons.prems(4,5)] show ?thesis .
  qed
qed

lemma make_fields_result:
  "make_fields L tok enc i strings m = Inr m' \<Longrightarrow>
   (\<forall>s \<in> set strings. \<exists>j f. j < length strings \<and> strings ! j = s \<and>
        field_of_entry L tok enc (i + j) = Inr f \<and> m' s = Some f) \<and>
   (\<forall>s. s \<notin> set strings \<longrightarrow> m' s = m s)"
proof (induction strings arbitrary: i m)
  case Nil
  then show ?case by simp
next
  case (Cons x xs)
  from Cons.prems obtain f where f: "field_of_entry L tok enc i = Inr f"
    and rest: "make_fields L tok enc (Suc i) xs (m(x \<mapsto> f)) = Inr m'"
    by (auto split: sum.splits)
  note IH = Cons.IH[OF rest]
  show ?case
  proof (intro conjI ballI allI impI)
    fix s assume "s \<in> set (x # xs)"
    show "\<exists>j f. j < length (x # xs) \<and> (x # xs) ! j = s \<and>
        field_of_entry L tok enc (i + j) = Inr f \<and> m' s = Some f"
    proof (cases "s \<in> set xs")
      case True
      with IH obtain j g where "j < length xs" "xs ! j = s"
        "field_of_entry L tok enc (Suc i + j) = Inr g" "m' s = Some g" by blast
      then show ?thesis by (intro exI[of _ "Suc j"] exI[of _ g]) simp
    next
      case False
      with \<open>s \<in> set (x # xs)\<close> have "s = x" by simp
      with False IH have "m' s = Some f" by simp
      with f \<open>s = x\<close> show ?thesis by (intro exI[of _ 0] exI[of _ f]) simp
    qed
  next
    fix s assume "s \<notin> set (x # xs)"
    with IH show "m' s = m s" by simp
  qed
qed

lemma replace_splits_items: "replace_splits m sps = replace_in_items m sps"
  by (induction sps) (auto split: sum.splits)

subsection \<open>Properties of \<open>Tokenize\<close>\<close>

lemma any_fullmatch_iff: "any_fullmatch rs name = (\<exists>r \<in> set rs. r name)"
  by (induction rs) auto

lemma compile_all_selected:
  "compile_all L rs = Inr cs \<Longrightarrow>
   any_fullmatch cs name =
     list_ex (\<lambda>r. case re_compile L r of Inr c \<Rightarrow> c name | Inl e \<Rightarrow> False) rs"
  by (induction rs arbitrary: cs) (auto split: sum.splits if_splits)

lemma compile_fields_selected:
  "compile_fields L fields_to_tokenize = Inr regexes \<Longrightarrow>
   should_tokenize_field regexes = selected L fields_to_tokenize"
  by (rule ext)
     (auto simp: compile_fields_def should_tokenize_field_def selected_def compile_all_selected
           split: option.splits sum.splits)

lemma Tokenize_run_Inr:
  assumes "Tokenize_run L tokenizer_name input fields_to_tokenize add_special max_len
             special_mask offsets st = Inr (out, st')"
  obtains tokenizer regexes names strings encoded string_to_field new_splits r where
    "get_tokenizer L tokenizer_name = Inr tokenizer"
    "pad_token_type_id L tokenizer = 0"
    "compile_fields L fields_to_tokenize = Inr regexes"
    "collect_splits (selected L fields_to_tokenize) (splits input) ([], []) = Inr (names, strings)"
    "batch_encode_plus L tokenizer (map Single strings)
       (Tokenize_encode_args add_special max_len special_mask offsets) = Inr encoded"
    "make_fields L tokenizer encoded 0 strings Map.empty = Inr string_to_field"
    "replace_splits string_to_field (splits input) = Inr new_splits"
    "make_vocab L tokenizer (vocab input) names st = (r, st')"
    "out = \<lparr>splits = new_splits, vocab = Some r, metadata = []\<rparr>"
proof -
  from assms obtain tokenizer where t: "get_tokenizer L tokenizer_name = Inr tokenizer"
    and p: "pad_token_type_id L tokenizer = 0"
    and b: "Tokenize_body L tokenizer input fields_to_tokenize add_special max_len
              special_mask offsets st = Inr (out, st')"
    by (auto simp: Tokenize_run_def split: sum.splits if_splits)
  from b obtain regexes where c: "compile_fields L fields_to_tokenize = Inr regexes"
    by (auto simp: Tokenize_body_def split: sum.splits)
  note sel = compile_fields_selected[OF c]
  from b c sel obtain names strings where
    cs: "collect_splits (selected L fields_to_tokenize) (splits input) ([], []) = Inr (names, strings)"
    by (auto simp: Tokenize_body_def split: sum.splits)
  from b c sel cs obtain encoded where
    e: "batch_encode_plus L tokenizer (map Single strings)
          (Tokenize_encode_args add_special max_len special_mask offsets) = Inr encoded"
    by (auto simp: Tokenize_body_def split: sum.splits)
  from b c sel cs e obtain string_to_field where
    m: "make_fields L tokenizer encoded 0 strings Map.empty = Inr string_to_field"
    by (auto simp: Tokenize_body_def split: sum.splits)
  from b c sel cs e m obtain new_splits where
    rs: "replace_splits string_to_field (splits input) = Inr new_splits"
    by (auto simp: Tokenize_body_def split: sum.splits)
  obtain r st2 where v: "make_vocab L tokenizer (vocab input) names st = (r, st2)"
    by (cases "make_vocab L tokenizer (vocab input) names st")
  from b c sel cs e m rs v have "out = \<lparr>splits = new_splits, vocab = Some r, metadata = []\<rparr>" "st' = st2"
    by (auto simp: Tokenize_body_def)
  with that[OF t p c cs e m rs] v show thesis by simp
qed

text \<open>
  C8. Structure preservation by \<open>Tokenize.run\<close>: the output has the split names of the
  input, in the same order, and every split of the output has the shape of the input
  split: the same keys in every dict, the same length and order of elements in every list
  (a \<open>Dataset\<close> has become a list), the same leaves but for the strings, each of which is
  unchanged or has become a \<open>TransformerTextField\<close>.
\<close>

theorem Tokenize_preserves_structure:
  assumes "Tokenize_run L tokenizer_name input fields_to_tokenize add_special max_len
             special_mask offsets st = Inr (out, st')"
  shows "map fst (splits out) = map fst (splits input) \<and>
         same_shape_items (splits input) (splits out)"
proof -
  from assms obtain string_to_field new_splits r where
    rs: "replace_splits string_to_field (splits input) = Inr new_splits"
    and out: "out = \<lparr>splits = new_splits, vocab = Some r, metadata = []\<rparr>"
    by (rule Tokenize_run_Inr)
  from rs have ri: "replace_in_items string_to_field (splits input) = Inr new_splits"
    by (simp add: replace_splits_items)
  from replace_in_items_nth[OF ri] have "map fst new_splits = map fst (splits input)"
    by (auto intro: nth_equalityI)
  moreover from replace_same_shape_aux(3)[OF ri] have "same_shape_items (splits input) new_splits" .
  ultimately show ?thesis by (simp add: out)
qed

lemma field_of_entry_Inr:
  assumes "field_of_entry L tokenizer encoded j = Inr f"
  shows "j < length (enc_input_ids encoded) \<and>
         input_ids f = torch_tensor (enc_input_ids encoded ! j) int32 \<and>
         j < length (enc_token_type_ids encoded) \<and>
         token_type_ids f = Some (torch_tensor (enc_token_type_ids encoded ! j) int32) \<and>
         padding_token_id f = pad_token_id L tokenizer"
  using assms
  by (auto simp: field_of_entry_def list_getitem_def tensor_int32_def split: sum.splits if_splits)

lemma replace_split_rows:
  assumes "replace_string_objects m split = Inr r" "split = Lst rows \<or> split = Dset rows"
  shows "\<exists>outs. r = Lst outs \<and> length outs = length rows \<and>
           (\<forall>i<length rows. replace_string_objects m (rows ! i) = Inr (outs ! i))"
proof -
  from assms obtain outs where o: "replace_in_list m rows = Inr outs" "r = Lst outs"
    by (auto split: sum.splits)
  from replace_in_list_nth[OF o(1)] o(2) show ?thesis by simp
qed

text \<open>
  C2. \<open>Tokenize.run\<close> maps raw strings to fields. The strings given to the tokenizer are
  those that \<open>find_string_objects\<close> yields under selected field names, in one batch. There
  is one field per distinct string (\<open>string_to_field\<close>, so that equal strings receive the
  same field), whose \<open>input_ids\<close> and \<open>token_type_ids\<close> are the tensors of an entry of the
  batch encoding at an index where the batch has that string. For every string of the
  input at a position of an instance whose dotted field name is selected (every name
  when \<open>fields_to_tokenize\<close> is \<open>None\<close>, otherwise a name that one of the regular expressions
  fully matches), the output has the field of that string at the same position of the same
  instance of the same split.
\<close>

theorem Tokenize_replaces_selected_strings:
  assumes run: "Tokenize_run L tokenizer_name input fields_to_tokenize add_special max_len
             special_mask offsets st = Inr (out, st')"
  shows "\<exists>tokenizer names strings encoded string_to_field.
     get_tokenizer L tokenizer_name = Inr tokenizer \<and>
     collect_splits (selected L fields_to_tokenize) (splits input) ([], []) = Inr (names, strings) \<and>
     batch_encode_plus L tokenizer (map Single strings)
       (Tokenize_encode_args add_special max_len special_mask offsets) = Inr encoded \<and>
     (\<forall>s \<in> set strings. \<exists>j f. j < length strings \<and> strings ! j = s \<and> string_to_field s = Some f \<and>
          j < length (enc_input_ids encoded) \<and>
          input_ids f = torch_tensor (enc_input_ids encoded ! j) int32 \<and>
          j < length (enc_token_type_ids encoded) \<and>
          token_type_ids f = Some (torch_tensor (enc_token_type_ids encoded ! j) int32)) \<and>
     (\<forall>k rows i p s name.
        k < length (splits input) \<longrightarrow>
        (snd (splits input ! k) = Lst rows \<or> snd (splits input ! k) = Dset rows) \<longrightarrow>
        i < length rows \<longrightarrow>
        subobj (rows ! i) p = Some (Str s) \<longrightarrow>
        dotted_name (rows ! i) p '''' = Some name \<longrightarrow>
        selected L fields_to_tokenize name \<longrightarrow>
        s \<in> set strings \<and>
        (\<exists>f outs. string_to_field s = Some f \<and> k < length (splits out) \<and>
            splits out ! k = (fst (splits input ! k), Lst outs) \<and> i < length outs \<and>
            subobj (outs ! i) p = Some (FieldObj (TextField f))))"
proof -
  from run obtain tokenizer names strings encoded string_to_field new_splits r where
    t: "get_tokenizer L tokenizer_name = Inr tokenizer"
    and cs: "collect_splits (selected L fields_to_tokenize) (splits input) ([], []) = Inr (names, strings)"
    and e: "batch_encode_plus L tokenizer (map Single strings)
          (Tokenize_encode_args add_special max_len special_mask offsets) = Inr encoded"
    and m: "make_fields L tokenizer encoded 0 strings Map.empty = Inr string_to_field"
    and rs: "replace_splits string_to_field (splits input) = Inr new_splits"
    and out: "out = \<lparr>splits = new_splits, vocab = Some r, metadata = []\<rparr>"
    by (rule Tokenize_run_Inr)
  from rs have ri: "replace_in_items string_to_field (splits input) = Inr new_splits"
    by (simp add: replace_splits_items)
  note mf = make_fields_result[OF m]
  have fields: "\<forall>s \<in> set strings. \<exists>j f. j < length strings \<and> strings ! j = s \<and>
          string_to_field s = Some f \<and>
          j < length (enc_input_ids encoded) \<and>
          input_ids f = torch_tensor (enc_input_ids encoded ! j) int32 \<and>
          j < length (enc_token_type_ids encoded) \<and>
          token_type_ids f = Some (torch_tensor (enc_token_type_ids encoded ! j) int32)"
  proof
    fix s assume "s \<in> set strings"
    with mf obtain j f where j: "j < length strings" "strings ! j = s"
      "field_of_entry L tokenizer encoded j = Inr f" "string_to_field s = Some f"
      by fastforce
    from field_of_entry_Inr[OF j(3)] j(1,2,4)
    show "\<exists>j f. j < length strings \<and> strings ! j = s \<and>
          string_to_field s = Some f \<and>
          j < length (enc_input_ids encoded) \<and>
          input_ids f = torch_tensor (enc_input_ids encoded ! j) int32 \<and>
          j < length (enc_token_type_ids encoded) \<and>
          token_type_ids f = Some (torch_tensor (enc_token_type_ids encoded ! j) int32)"
      by blast
  qed
  have positions: "s \<in> set strings \<and>
        (\<exists>f outs. string_to_field s = Some f \<and> k < length (splits out) \<and>
            splits out ! k = (fst (splits input ! k), Lst outs) \<and> i < length outs \<and>
            subobj (outs ! i) p = Some (FieldObj (TextField f)))"
    if k: "k < length (splits input)"
      and sp: "snd (splits input ! k) = Lst rows \<or> snd (splits input ! k) = Dset rows"
      and i: "i < length rows"
      and sub: "subobj (rows ! i) p = Some (Str s)"
      and dn: "dotted_name (rows ! i) p '''' = Some name"
      and sel: "selected L fields_to_tokenize name"
    for k rows i p s name
  proof -
    from sp have it: "py_iter (snd (splits input ! k)) = Inr rows" by auto
    from find_string_objects_complete[OF sub dn, of "selected L fields_to_tokenize"] sel
    have "(name, s) \<in> set (find_string_objects (selected L fields_to_tokenize) (rows ! i) '''')"
      by simp
    from collect_splits_complete[OF cs k it _ this] i have s: "s \<in> set strings" by simp
    with fields obtain f where f: "string_to_field s = Some f" by blast
    from replace_in_items_nth[OF ri] k
    have len: "length new_splits = length (splits input)"
      and fst: "fst (new_splits ! k) = fst (splits input ! k)"
      and rep: "replace_string_objects string_to_field (snd (splits input ! k)) = Inr (snd (new_splits ! k))"
      by auto
    from replace_split_rows[OF rep sp] obtain outs where
      o: "snd (new_splits ! k) = Lst outs" "length outs = length rows"
      "replace_string_objects string_to_field (rows ! i) = Inr (outs ! i)"
      using i by blast
    from replace_subobj[OF o(3) sub] f
    have "subobj (outs ! i) p = Some (FieldObj (TextField f))"
      by (auto simp: dict_getitem_def)
    moreover from fst o(1) have "new_splits ! k = (fst (splits input ! k), Lst outs)"
      by (cases "new_splits ! k") simp
    ultimately show ?thesis using s f len k i o(2) by (auto simp: out)
  qed
  from t cs e fields positions show ?thesis by blast
qed

text \<open>
  A string that is not among the strings given to the tokenizer stays where it is.
\<close>

lemma Tokenize_keeps_other_strings:
  assumes run: "Tokenize_run L tokenizer_name input fields_to_tokenize add_special max_len
             special_mask offsets st = Inr (out, st')"
    and cs: "collect_splits (selected L fields_to_tokenize) (splits input) ([], []) = Inr (names, strings)"
    and k: "k < length (splits input)"
    and sp: "snd (splits input ! k) = Lst rows \<or> snd (splits input ! k) = Dset rows"
    and i: "i < length rows"
    and sub: "subobj (rows ! i) p = Some (Str s)"
    and s: "s \<notin> set strings"
  shows "\<exists>outs. splits out ! k = (fst (splits input ! k), Lst outs) \<and> i < length outs \<and>
           subobj (outs ! i) p = Some (Str s)"
proof -
  from run obtain tokenizer names' strings' encoded string_to_field new_splits r where
    cs': "collect_splits (selected L fields_to_tokenize) (splits input) ([], []) = Inr (names', strings')"
    and m: "make_fields L tokenizer encoded 0 strings' Map.empty = Inr string_to_field"
    and rs: "replace_splits string_to_field (splits input) = Inr new_splits"
    and out: "out = \<lparr>splits = new_splits, vocab = Some r, metadata = []\<rparr>"
    by (rule Tokenize_run_Inr)
  from cs cs' have "strings' = strings" by simp
  with make_fields_result[OF m] s have none: "string_to_field s = None" by simp
  from rs have ri: "replace_in_items string_to_field (splits input) = Inr new_splits"
    by (simp add: replace_splits_items)
  from replace_in_items_nth[OF ri] k
  have fst: "fst (new_splits ! k) = fst (splits input ! k)"
    and rep: "replace_string_objects string_to_field (snd (splits input ! k)) = Inr (snd (new_splits ! k))"
    by auto
  from replace_split_rows[OF rep sp] obtain outs where
    o: "snd (new_splits ! k) = Lst outs" "length outs = length rows"
    "replace_string_objects string_to_field (rows ! i) = Inr (outs ! i)"
    using i by blast
  from replace_subobj[OF o(3) sub] none
  have "subobj (outs ! i) p = Some (Str s)"
    by (auto simp: dict_getitem_def)
  moreover from fst o(1) have "new_splits ! k = (fst (splits input ! k), Lst outs)"
    by (cases "new_splits ! k") simp
  ultimately show ?thesis using i o(2) by (auto simp: out)
qed

subsection \<open>Properties of \<open>PiqaInstances\<close>\<close>

lemma piqa_instances_of_nth:
  "piqa_instances_of rows = Inr xs \<Longrightarrow>
   length xs = length rows \<and> (\<forall>i<length rows. piqa_instance_of (rows ! i) = Inr (xs ! i))"
proof (induction rows arbitrary: xs)
  case Nil
  then show ?case by simp
next
  case (Cons r rows)
  then show ?case
    by (auto split: sum.splits simp: nth_Cons split: nat.splits)
qed

lemma piqa_dataset_nth:
  "piqa_dataset loaded = Inr dataset \<Longrightarrow>
   length dataset = length loaded \<and>
   (\<forall>k<length loaded. fst (dataset ! k) = fst (loaded ! k) \<and>
      piqa_instances_of (snd (loaded ! k)) = Inr (snd (dataset ! k)))"
proof (induction loaded arbitrary: dataset)
  case Nil
  then show ?case by simp
next
  case (Cons sp loaded)
  obtain n rows where sp: "sp = (n, rows)" by (cases sp)
  from Cons show ?case
    by (auto split: sum.splits simp: sp nth_Cons split: nat.splits)
qed

lemma piqa_tokenized_nth:
  "piqa_tokenized L tokenizer max_len dataset = Inr tokenized \<Longrightarrow>
   length tokenized = length dataset \<and>
   (\<forall>k<length dataset. fst (tokenized ! k) = fst (dataset ! k) \<and>
      batch_encode_plus L tokenizer (all_alternatives (snd (dataset ! k))) (Piqa_encode_args max_len)
        = Inr (snd (tokenized ! k)))"
proof (induction dataset arbitrary: tokenized)
  case Nil
  then show ?case by simp
next
  case (Cons sp dataset)
  obtain n xs where sp: "sp = (n, xs)" by (cases sp)
  from Cons show ?case
    by (auto split: sum.splits simp: sp nth_Cons split: nat.splits)
qed

lemma map_of_distinct_nth:
  "distinct (map fst xs) \<Longrightarrow> k < length xs \<Longrightarrow> map_of xs (fst (xs ! k)) = Some (snd (xs ! k))"
  by (simp add: map_of_eq_Some_iff)

lemma update_fresh: "key \<notin> fst ` set acc \<Longrightarrow> AList.update key v acc = acc @ [(key, v)]"
  by (induction acc) auto

lemma results_per_split_nth:
  "results_per_split enc i0 instances = Inr outs \<Longrightarrow>
   length outs = length instances \<and>
   (\<forall>i<length instances. \<exists>alt1 alt2 fs.
      alternative_field enc (2 * (i0 + i)) = Inr alt1 \<and>
      alternative_field enc (2 * (i0 + i) + 1) = Inr alt2 \<and>
      instance_fields (correct_alternative (instances ! i)) (ListField [alt1, alt2]) = Inr fs \<and>
      outs ! i = Instance fs)"
proof (induction instances arbitrary: i0 outs)
  case Nil
  then show ?case by simp
next
  case (Cons x xs)
  from Cons.prems obtain alt1 alt2 fs rest where
    a: "alternative_field enc (2 * i0) = Inr alt1" "alternative_field enc (2 * i0 + 1) = Inr alt2"
       "instance_fields (correct_alternative x) (ListField [alt1, alt2]) = Inr fs"
       "results_per_split enc (Suc i0) xs = Inr rest" "outs = Instance fs # rest"
    by (auto split: sum.splits)
  note IH = Cons.IH[OF a(4)]
  show ?case
  proof (intro conjI allI impI)
    show "length outs = length (x # xs)" using IH a(5) by simp
  next
    fix i assume i: "i < length (x # xs)"
    show "\<exists>alt1 alt2 fs.
      alternative_field enc (2 * (i0 + i)) = Inr alt1 \<and>
      alternative_field enc (2 * (i0 + i) + 1) = Inr alt2 \<and>
      instance_fields (correct_alternative ((x # xs) ! i)) (ListField [alt1, alt2]) = Inr fs \<and>
      outs ! i = Instance fs"
    proof (cases i)
      case 0
      with a show ?thesis by simp
    next
      case (Suc j)
      with i IH have "\<exists>alt1 alt2 fs.
        alternative_field enc (2 * (Suc i0 + j)) = Inr alt1 \<and>
        alternative_field enc (2 * (Suc i0 + j) + 1) = Inr alt2 \<and>
        instance_fields (correct_alternative (xs ! j)) (ListField [alt1, alt2]) = Inr fs \<and>
        rest ! j = Instance fs" by simp
      with Suc a(5) show ?thesis by simp
    qed
  qed
qed

lemma piqa_result_nth:
  "piqa_result tokenized dataset acc = Inr result \<Longrightarrow>
   distinct (map fst dataset) \<Longrightarrow> fst ` set acc \<inter> fst ` set dataset = {} \<Longrightarrow>
   length result = length acc + length dataset \<and>
   (\<forall>k<length dataset. \<exists>enc per.
      map_of tokenized (fst (dataset ! k)) = Some enc \<and>
      results_per_split enc 0 (snd (dataset ! k)) = Inr per \<and>
      result ! (length acc + k) = (fst (dataset ! k), Lst per))"
proof (induction dataset arbitrary: acc)
  case Nil
  then show ?case by simp
next
  case (Cons sp dataset)
  obtain n xs where sp: "sp = (n, xs)" by (cases sp)
  from Cons.prems(1) obtain enc per where
    a: "map_of tokenized n = Some enc" "results_per_split enc 0 xs = Inr per"
       "piqa_result tokenized dataset (AList.update n (Lst per) acc) = Inr result"
    by (auto simp: sp dict_getitem_def split: sum.splits option.splits)
  from Cons.prems(3) have fresh: "n \<notin> fst ` set acc" by (auto simp: sp)
  then have upd: "AList.update n (Lst per) acc = acc @ [(n, Lst per)]" by (rule update_fresh)
  from Cons.prems(2,3) have d: "distinct (map fst dataset)"
    and disj: "fst ` set (acc @ [(n, Lst per)]) \<inter> fst ` set dataset = {}"
    by (auto simp: sp)
  from Cons.IH[OF a(3)[unfolded upd] d disj]
  have len: "length result = Suc (length acc) + length dataset"
    and rest: "\<forall>k<length dataset. \<exists>enc per'.
      map_of tokenized (fst (dataset ! k)) = Some enc \<and>
      results_per_split enc 0 (snd (dataset ! k)) = Inr per' \<and>
      result ! (Suc (length acc) + k) = (fst (dataset ! k), Lst per')"
    by simp_all
  have first: "result ! length acc = (n, Lst per)"
  proof -
    have "\<And>res acc'. piqa_result tokenized dataset acc' = Inr res \<Longrightarrow>
          distinct (map fst dataset) \<Longrightarrow> fst ` set acc' \<inter> fst ` set dataset = {} \<Longrightarrow>
          take (length acc') res = acc'"
    proof (induction dataset)
      case Nil
      then show ?case by simp
    next
      case (Cons sp' ds)
      obtain n' xs' where sp': "sp' = (n', xs')" by (cases sp')
      from Cons.prems(1) obtain per' where
        r: "piqa_result tokenized ds (AList.update n' (Lst per') acc') = Inr res"
        by (auto simp: sp' dict_getitem_def split: sum.splits option.splits)
      from Cons.prems(3) have "n' \<notin> fst ` set acc'" by (auto simp: sp')
      then have u: "AList.update n' (Lst per') acc' = acc' @ [(n', Lst per')]" by (rule update_fresh)
      from Cons.prems(2,3) have "distinct (map fst ds)"
        "fst ` set (acc' @ [(n', Lst per')]) \<inter> fst ` set ds = {}"
        by (auto simp: sp')
      from Cons.IH[OF r[unfolded u] this]
      have "take (Suc (length acc')) res = acc' @ [(n', Lst per')]" by simp
      then have "take (length acc') (take (Suc (length acc')) res) = take (length acc') (acc' @ [(n', Lst per')])"
        by simp
      then show ?case by simp
    qed
    from this[OF a(3)[unfolded upd] d disj]
    have "take (Suc (length acc)) result = acc @ [(n, Lst per)]" by simp
    then have "take (Suc (length acc)) result ! length acc = (acc @ [(n, Lst per)]) ! length acc"
      by simp
    then show ?thesis by simp
  qed
  show ?case
  proof (intro conjI allI impI)
    show "length result = length acc + length (sp # dataset)" using len by simp
  next
    fix k assume k: "k < length (sp # dataset)"
    show "\<exists>enc per.
      map_of tokenized (fst ((sp # dataset) ! k)) = Some enc \<and>
      results_per_split enc 0 (snd ((sp # dataset) ! k)) = Inr per \<and>
      result ! (length acc + k) = (fst ((sp # dataset) ! k), Lst per)"
    proof (cases k)
      case 0
      with a first show ?thesis by (simp add: sp)
    next
      case (Suc j)
      with k rest show ?thesis by simp
    qed
  qed
qed

lemma piqa_instance_of_Inr:
  assumes "piqa_instance_of row = Inr x"
  shows "\<exists>label goal sol1 sol2.
     map_of row ''label'' = Some label \<and> map_of row ''goal'' = Some goal \<and>
     map_of row ''sol1'' = Some sol1 \<and> map_of row ''sol2'' = Some sol2 \<and>
     x = \<lparr>correct_alternative = label, alternatives = [(goal, sol1), (goal, sol2)]\<rparr>"
  using assms
  by (auto simp: piqa_instance_of_def dict_getitem_def split: option.splits sum.splits)

lemma all_alternatives_nth:
  "\<forall>x \<in> set instances. length (alternatives x) = 2 \<Longrightarrow> i < length instances \<Longrightarrow>
   length (all_alternatives instances) = 2 * length instances \<and>
   all_alternatives instances ! (2 * i) =
     Pair (fst (alternatives (instances ! i) ! 0)) (snd (alternatives (instances ! i) ! 0)) \<and>
   all_alternatives instances ! (2 * i + 1) =
     Pair (fst (alternatives (instances ! i) ! 1)) (snd (alternatives (instances ! i) ! 1))"
proof (induction instances arbitrary: i)
  case Nil
  then show ?case by simp
next
  case (Cons x xs)
  from Cons.prems(1) obtain a b where ab: "alternatives x = [a, b]"
    by (cases "alternatives x"; cases "tl (alternatives x)") auto
  have len: "length (all_alternatives xs) = 2 * length xs"
    using Cons.prems(1)
    by (induction xs) (auto simp: all_alternatives_def)
  have cons: "all_alternatives (x # xs) =
      Pair (fst a) (snd a) # Pair (fst b) (snd b) # all_alternatives xs"
    by (simp add: all_alternatives_def ab)
  show ?case
  proof (cases i)
    case 0
    with len show ?thesis by (simp add: cons ab)
  next
    case (Suc j)
    with Cons.prems have "j < length xs" "\<forall>x \<in> set xs. length (alternatives x) = 2" by simp_all
    from Cons.IH[OF this(2) this(1)] Suc len show ?thesis by (simp add: cons)
  qed
qed

lemma alternative_field_Inr:
  assumes "alternative_field enc j = Inr alt"
  shows "\<exists>f. alt = TextField f \<and>
           j < length (enc_input_ids enc) \<and>
           input_ids f = torch_tensor (enc_input_ids enc ! j) int32 \<and>
           j < length (enc_token_type_ids enc) \<and>
           token_type_ids f = Some (torch_tensor (enc_token_type_ids enc ! j) int32)"
  using assms
  by (auto simp: alternative_field_def list_getitem_def tensor_int32_def split: sum.splits if_splits)

lemma instance_fields_Inr:
  assumes "instance_fields label alts = Inr fs"
  shows "\<exists>n. label = IntObj n \<and>
           fs = (if 0 \<le> n
                 then [(''alternatives'', alts), (''correct_alternative'', IndexField n alts)]
                 else [(''alternatives'', alts)])"
  using assms
  by (cases label) (auto simp: instance_fields_def)

lemma PiqaInstances_run_Inr:
  assumes "PiqaInstances_run L tokenizer_name max_len st = Inr (out, st')"
  obtains tokenizer loaded dataset tokenized where
    "get_tokenizer L tokenizer_name = Inr tokenizer"
    "pad_token_type_id L tokenizer = 0"
    "load_dataset L ''piqa'' = Inr loaded"
    "piqa_dataset loaded = Inr dataset"
    "piqa_tokenized L tokenizer max_len dataset = Inr tokenized"
    "piqa_result tokenized dataset [] = Inr (splits out)"
    "vocab out = Some (next_ref st)"
    "st' = mutate (next_ref st) (add_transformer_vocab L tokenizer ''tokens'')
             (snd (new_object (Vocabulary_empty L) st))"
proof -
  from assms obtain tokenizer where t: "get_tokenizer L tokenizer_name = Inr tokenizer"
    and p: "pad_token_type_id L tokenizer = 0"
    and b: "PiqaInstances_body L tokenizer max_len st = Inr (out, st')"
    by (auto simp: PiqaInstances_run_def split: sum.splits if_splits)
  from b obtain loaded where l: "load_dataset L ''piqa'' = Inr loaded"
    by (auto simp: PiqaInstances_body_def split: sum.splits)
  from b l obtain dataset where d: "piqa_dataset loaded = Inr dataset"
    by (auto simp: PiqaInstances_body_def split: sum.splits)
  from b l d obtain tokenized where z: "piqa_tokenized L tokenizer max_len dataset = Inr tokenized"
    by (auto simp: PiqaInstances_body_def split: sum.splits)
  from b l d z obtain result where r: "piqa_result tokenized dataset [] = Inr result"
    by (auto simp: PiqaInstances_body_def split: sum.splits)
  from b l d z r have "splits out = result" "vocab out = Some (next_ref st)"
    "st' = mutate (next_ref st) (add_transformer_vocab L tokenizer ''tokens'')
             (snd (new_object (Vocabulary_empty L) st))"
    by (auto simp: PiqaInstances_body_def new_object_def)
  with that[OF t p l d z] r show thesis by simp
qed

lemma PiqaInstances_instance:
  assumes run: "PiqaInstances_run L tokenizer_name max_len st = Inr (out, st')"
    and loaded: "load_dataset L ''piqa'' = Inr loaded"
    and dist: "distinct (map fst loaded)"
    and k: "k < length loaded"
    and i: "i < length (snd (loaded ! k))"
  shows "\<exists>tokenizer label goal sol1 sol2 inputs encoded alt1 alt2 fs instances.
    get_tokenizer L tokenizer_name = Inr tokenizer \<and>
    map_of (snd (loaded ! k) ! i) ''label'' = Some label \<and>
    map_of (snd (loaded ! k) ! i) ''goal'' = Some goal \<and>
    map_of (snd (loaded ! k) ! i) ''sol1'' = Some sol1 \<and>
    map_of (snd (loaded ! k) ! i) ''sol2'' = Some sol2 \<and>
    length inputs = 2 * length (snd (loaded ! k)) \<and>
    inputs ! (2 * i) = Pair goal sol1 \<and>
    inputs ! (2 * i + 1) = Pair goal sol2 \<and>
    batch_encode_plus L tokenizer inputs (Piqa_encode_args max_len) = Inr encoded \<and>
    alternative_field encoded (2 * i) = Inr alt1 \<and>
    alternative_field encoded (2 * i + 1) = Inr alt2 \<and>
    instance_fields label (ListField [alt1, alt2]) = Inr fs \<and>
    length (splits out) = length loaded \<and>
    splits out ! k = (fst (loaded ! k), Lst instances) \<and>
    length instances = length (snd (loaded ! k)) \<and>
    instances ! i = Instance fs"
proof -
  from run obtain tokenizer loaded' dataset tokenized where
    t: "get_tokenizer L tokenizer_name = Inr tokenizer"
    and l: "load_dataset L ''piqa'' = Inr loaded'"
    and d: "piqa_dataset loaded' = Inr dataset"
    and z: "piqa_tokenized L tokenizer max_len dataset = Inr tokenized"
    and r: "piqa_result tokenized dataset [] = Inr (splits out)"
    by (rule PiqaInstances_run_Inr)
  from l loaded have [simp]: "loaded' = loaded" by simp
  note dn = piqa_dataset_nth[OF d, simplified]
  note zn = piqa_tokenized_nth[OF z]
  from dn have names: "map fst dataset = map fst loaded"
    by (auto intro: nth_equalityI)
  from zn dn have znames: "map fst tokenized = map fst loaded"
    by (auto intro: nth_equalityI)
  from dn k have kd: "k < length dataset" and fk: "fst (dataset ! k) = fst (loaded ! k)"
    and io: "piqa_instances_of (snd (loaded ! k)) = Inr (snd (dataset ! k))"
    by auto
  note inn = piqa_instances_of_nth[OF io]
  from inn i have len: "length (snd (dataset ! k)) = length (snd (loaded ! k))"
    and pi: "piqa_instance_of (snd (loaded ! k) ! i) = Inr (snd (dataset ! k) ! i)"
    by auto
  from piqa_instance_of_Inr[OF pi] obtain label goal sol1 sol2 where
    row: "map_of (snd (loaded ! k) ! i) ''label'' = Some label"
      "map_of (snd (loaded ! k) ! i) ''goal'' = Some goal"
      "map_of (snd (loaded ! k) ! i) ''sol1'' = Some sol1"
      "map_of (snd (loaded ! k) ! i) ''sol2'' = Some sol2"
      "snd (dataset ! k) ! i = \<lparr>correct_alternative = label, alternatives = [(goal, sol1), (goal, sol2)]\<rparr>"
    by blast
  have two: "\<forall>x \<in> set (snd (dataset ! k)). length (alternatives x) = 2"
  proof
    fix x assume "x \<in> set (snd (dataset ! k))"
    then obtain j where j: "j < length (snd (dataset ! k))" "snd (dataset ! k) ! j = x"
      by (auto simp: in_set_conv_nth)
    with inn have "piqa_instance_of (snd (loaded ! k) ! j) = Inr x" by auto
    from piqa_instance_of_Inr[OF this] show "length (alternatives x) = 2" by auto
  qed
  from i len have i': "i < length (snd (dataset ! k))" by simp
  from all_alternatives_nth[OF two i'] row(5) len
  have inputs: "length (all_alternatives (snd (dataset ! k))) = 2 * length (snd (loaded ! k))"
    "all_alternatives (snd (dataset ! k)) ! (2 * i) = Pair goal sol1"
    "all_alternatives (snd (dataset ! k)) ! (2 * i + 1) = Pair goal sol2"
    by simp_all
  from zn kd have kz: "k < length tokenized" and fz: "fst (tokenized ! k) = fst (dataset ! k)"
    and enc: "batch_encode_plus L tokenizer (all_alternatives (snd (dataset ! k)))
                (Piqa_encode_args max_len) = Inr (snd (tokenized ! k))"
    by auto
  from dist znames have "distinct (map fst tokenized)" by simp
  from map_of_distinct_nth[OF this kz] fz
  have look: "map_of tokenized (fst (dataset ! k)) = Some (snd (tokenized ! k))" by simp
  from dist names have dd: "distinct (map fst dataset)" by simp
  from piqa_result_nth[OF r dd] kd look
  obtain per where per: "results_per_split (snd (tokenized ! k)) 0 (snd (dataset ! k)) = Inr per"
    "splits out ! k = (fst (dataset ! k), Lst per)"
    and lr: "length (splits out) = length dataset"
    by fastforce
  from results_per_split_nth[OF per(1)] i' row(5)
  obtain alt1 alt2 fs where
    a: "alternative_field (snd (tokenized ! k)) (2 * i) = Inr alt1"
       "alternative_field (snd (tokenized ! k)) (2 * i + 1) = Inr alt2"
       "instance_fields label (ListField [alt1, alt2]) = Inr fs"
       "per ! i = Instance fs"
    and lp: "length per = length (snd (dataset ! k))"
    by fastforce
  from t row(1-4) inputs enc a per(2) fk lr dn lp len show ?thesis
    by (intro exI[of _ tokenizer] exI[of _ label] exI[of _ goal] exI[of _ sol1] exI[of _ sol2]
          exI[of _ "all_alternatives (snd (dataset ! k))"] exI[of _ "snd (tokenized ! k)"]
          exI[of _ alt1] exI[of _ alt2] exI[of _ fs] exI[of _ per]) simp
qed

text \<open>
  C1. Batched-tokenization bookkeeping of \<open>PiqaInstances\<close>. The loaded dataset is a dict, so
  its split names are distinct. For every split (the \<open>k\<close>-th) and every source instance at
  position \<open>i\<close> of it: the split's batch given to the tokenizer has two inputs per
  instance, and its inputs \<open>2 * i\<close> and \<open>2 * i + 1\<close> are the pairs (goal, sol1) and
  (goal, sol2) of that source instance; the \<open>i\<close>-th instance returned for the split has
  under \<open>alternatives\<close> a \<open>ListField\<close> of exactly two \<open>TransformerTextField\<close>s, whose
  \<open>input_ids\<close> and \<open>token_type_ids\<close> are the tensors of the entries \<open>2 * i\<close> and \<open>2 * i + 1\<close>
  of the split's batch encoding, in this order.
\<close>

theorem PiqaInstances_alternatives:
  assumes run: "PiqaInstances_run L tokenizer_name max_len st = Inr (out, st')"
    and loaded: "load_dataset L ''piqa'' = Inr loaded"
    and dist: "distinct (map fst loaded)"
    and k: "k < length loaded"
    and i: "i < length (snd (loaded ! k))"
  shows "\<exists>tokenizer goal sol1 sol2 inputs encoded f1 f2 fs instances.
    get_tokenizer L tokenizer_name = Inr tokenizer \<and>
    map_of (snd (loaded ! k) ! i) ''goal'' = Some goal \<and>
    map_of (snd (loaded ! k) ! i) ''sol1'' = Some sol1 \<and>
    map_of (snd (loaded ! k) ! i) ''sol2'' = Some sol2 \<and>
    batch_encode_plus L tokenizer inputs (Piqa_encode_args max_len) = Inr encoded \<and>
    length inputs = 2 * length (snd (loaded ! k)) \<and>
    inputs ! (2 * i) = Pair goal sol1 \<and>
    inputs ! (2 * i + 1) = Pair goal sol2 \<and>
    2 * i + 1 < length (enc_input_ids encoded) \<and>
    2 * i + 1 < length (enc_token_type_ids encoded) \<and>
    input_ids f1 = torch_tensor (enc_input_ids encoded ! (2 * i)) int32 \<and>
    token_type_ids f1 = Some (torch_tensor (enc_token_type_ids encoded ! (2 * i)) int32) \<and>
    input_ids f2 = torch_tensor (enc_input_ids encoded ! (2 * i + 1)) int32 \<and>
    token_type_ids f2 = Some (torch_tensor (enc_token_type_ids encoded ! (2 * i + 1)) int32) \<and>
    length (splits out) = length loaded \<and>
    splits out ! k = (fst (loaded ! k), Lst instances) \<and>
    length instances = length (snd (loaded ! k)) \<and>
    instances ! i = Instance fs \<and>
    map_of fs ''alternatives'' = Some (ListField [TextField f1, TextField f2])"
proof -
  from PiqaInstances_instance[OF assms]
  obtain tokenizer label goal sol1 sol2 inputs encoded alt1 alt2 fs instances where
    a: "get_tokenizer L tokenizer_name = Inr tokenizer"
    "map_of (snd (loaded ! k) ! i) ''goal'' = Some goal"
    "map_of (snd (loaded ! k) ! i) ''sol1'' = Some sol1"
    "map_of (snd (loaded ! k) ! i) ''sol2'' = Some sol2"
    "length inputs = 2 * length (snd (loaded ! k))"
    "inputs ! (2 * i) = Pair goal sol1"
    "inputs ! (2 * i + 1) = Pair goal sol2"
    "batch_encode_plus L tokenizer inputs (Piqa_encode_args max_len) = Inr encoded"
    and alts: "alternative_field encoded (2 * i) = Inr alt1"
    "alternative_field encoded (2 * i + 1) = Inr alt2"
    and fs: "instance_fields label (ListField [alt1, alt2]) = Inr fs"
    and b: "length (splits out) = length loaded"
    "splits out ! k = (fst (loaded ! k), Lst instances)"
    "length instances = length (snd (loaded ! k))"
    "instances ! i = Instance fs"
    by blast
  from alternative_field_Inr[OF alts(1)] obtain f1 where
    f1: "alt1 = TextField f1"
    "input_ids f1 = torch_tensor (enc_input_ids encoded ! (2 * i)) int32"
    "token_type_ids f1 = Some (torch_tensor (enc_token_type_ids encoded ! (2 * i)) int32)"
    by blast
  from alternative_field_Inr[OF alts(2)] obtain f2 where
    f2: "alt2 = TextField f2"
    "2 * i + 1 < length (enc_input_ids encoded)"
    "input_ids f2 = torch_tensor (enc_input_ids encoded ! (2 * i + 1)) int32"
    "2 * i + 1 < length (enc_token_type_ids encoded)"
    "token_type_ids f2 = Some (torch_tensor (enc_token_type_ids encoded ! (2 * i + 1)) int32)"
    by blast
  from instance_fields_Inr[OF fs] f1(1) f2(1)
  have "map_of fs ''alternatives'' = Some (ListField [TextField f1, TextField f2])"
    by (auto split: if_splits)
  with a b f1 f2 show ?thesis by blast
qed

text \<open>
  C10. Conditional label field in \<open>PiqaInstances\<close>. For every source instance, the label
  is an integer \<open>n\<close>, and the returned instance has the fields \<open>alternatives\<close> and
  \<open>correct_alternative\<close> (an \<open>IndexField\<close> of \<open>n\<close> into the alternatives) when \<open>0 \<le> n\<close>, and
  the field \<open>alternatives\<close> only when \<open>n\<close> is negative.
\<close>

theorem PiqaInstances_label_field:
  assumes run: "PiqaInstances_run L tokenizer_name max_len st = Inr (out, st')"
    and loaded: "load_dataset L ''piqa'' = Inr loaded"
    and dist: "distinct (map fst loaded)"
    and k: "k < length loaded"
    and i: "i < length (snd (loaded ! k))"
  shows "\<exists>n alts instances.
    map_of (snd (loaded ! k) ! i) ''label'' = Some (IntObj n) \<and>
    splits out ! k = (fst (loaded ! k), Lst instances) \<and>
    i < length instances \<and>
    instances ! i =
      Instance (if 0 \<le> n
                then [(''alternatives'', alts), (''correct_alternative'', IndexField n alts)]
                else [(''alternatives'', alts)])"
proof -
  from PiqaInstances_instance[OF assms]
  obtain label alt1 alt2 fs instances where
    a: "map_of (snd (loaded ! k) ! i) ''label'' = Some label"
    "instance_fields label (ListField [alt1, alt2]) = Inr fs"
    "splits out ! k = (fst (loaded ! k), Lst instances)"
    "length instances = length (snd (loaded ! k))"
    "instances ! i = Instance fs"
    by blast
  from instance_fields_Inr[OF a(2)] a(1,3,4,5) i show ?thesis
    by (intro exI[of _ "case label of IntObj n \<Rightarrow> n"] exI[of _ "ListField [alt1, alt2]"]
          exI[of _ instances]) auto
qed

subsection \<open>Failures, the store and determinism\<close>

text \<open>
  C7. Tokenizer-configuration assertion. Once the tokenizer of \<open>tokenizer_name\<close> is loaded:
  when its \<open>pad_token_type_id\<close> is not 0, \<open>Tokenize.run\<close> and \<open>PiqaInstances.run\<close> raise
  \<open>AssertionError\<close> and return nothing; when it is 0, the assertion does not fire and each
  run is the rest of its body.
\<close>

theorem tokenizer_assertion:
  assumes "get_tokenizer L tokenizer_name = Inr tokenizer"
  shows "(pad_token_type_id L tokenizer \<noteq> 0 \<longrightarrow>
            Tokenize_run L tokenizer_name input fields_to_tokenize add_special max_len
              special_mask offsets st = Inl AssertionError \<and>
            PiqaInstances_run L tokenizer_name piqa_max_len st = Inl AssertionError) \<and>
         (pad_token_type_id L tokenizer = 0 \<longrightarrow>
            Tokenize_run L tokenizer_name input fields_to_tokenize add_special max_len
              special_mask offsets st =
              Tokenize_body L tokenizer input fields_to_tokenize add_special max_len
                special_mask offsets st \<and>
            PiqaInstances_run L tokenizer_name piqa_max_len st =
              PiqaInstances_body L tokenizer piqa_max_len st)"
  using assms by (simp add: Tokenize_run_def PiqaInstances_run_def)

lemma replace_splits_total: "\<exists>new_splits. replace_splits m sps = Inr new_splits"
  using replace_total_aux(3)[of m sps] by (simp add: replace_splits_items)

text \<open>
  C6, as amended. In \<open>Tokenize.run\<close> the replacement of strings by fields raises nothing: a
  lookup of a string that is not a key of \<open>string_to_field\<close> raises \<open>KeyError\<close> inside
  \<open>replace_string_objects\<close>, where it is caught and the string returned. \<open>Tokenize.run\<close>
  raises \<open>e\<close> exactly when one of the other stages raises \<open>e\<close>: loading the tokenizer, the
  assertion (then \<open>e\<close> is \<open>AssertionError\<close>), compiling the regular expressions, iterating
  the splits, the batch encoding, or building the fields from the encoding. These failures
  reach the caller unmodified.
\<close>

theorem Tokenize_failures:
  "(dict_getitem string_to_field s = Inl KeyError \<longrightarrow>
      replace_string_objects string_to_field (Str s) = Inr (Str s)) \<and>
   (\<exists>new_splits. replace_splits string_to_field some_splits = Inr new_splits) \<and>
   (Tokenize_run L tokenizer_name input fields_to_tokenize add_special max_len special_mask offsets st
     = Inl e \<longleftrightarrow>
   get_tokenizer L tokenizer_name = Inl e \<or>
   (\<exists>tokenizer. get_tokenizer L tokenizer_name = Inr tokenizer \<and>
      (pad_token_type_id L tokenizer \<noteq> 0 \<and> e = AssertionError \<or>
       pad_token_type_id L tokenizer = 0 \<and>
       (compile_fields L fields_to_tokenize = Inl e \<or>
        (\<exists>regexes. compile_fields L fields_to_tokenize = Inr regexes \<and>
           (collect_splits (should_tokenize_field regexes) (splits input) ([], []) = Inl e \<or>
            (\<exists>names strings.
               collect_splits (should_tokenize_field regexes) (splits input) ([], [])
                 = Inr (names, strings) \<and>
               (batch_encode_plus L tokenizer (map Single strings)
                  (Tokenize_encode_args add_special max_len special_mask offsets) = Inl e \<or>
                (\<exists>encoded.
                   batch_encode_plus L tokenizer (map Single strings)
                     (Tokenize_encode_args add_special max_len special_mask offsets) = Inr encoded \<and>
                   make_fields L tokenizer encoded 0 strings Map.empty = Inl e)))))))))"
  (is "?caught \<and> ?total \<and> ?fails")
proof (intro conjI)
  show ?caught by simp
  show ?total by (rule replace_splits_total)
  show ?fails
  proof (cases "get_tokenizer L tokenizer_name")
  case (Inl e')
  then show ?thesis by (simp add: Tokenize_run_def)
next
  case t: (Inr tokenizer)
  show ?thesis
  proof (cases "pad_token_type_id L tokenizer = 0")
    case False
    with t show ?thesis by (auto simp: Tokenize_run_def)
  next
    case p: True
    show ?thesis
    proof (cases "compile_fields L fields_to_tokenize")
      case (Inl e')
      with t p show ?thesis by (simp add: Tokenize_run_def Tokenize_body_def)
    next
      case c: (Inr regexes)
      show ?thesis
      proof (cases "collect_splits (should_tokenize_field regexes) (splits input) ([], [])")
        case (Inl e')
        with t p c show ?thesis by (simp add: Tokenize_run_def Tokenize_body_def)
      next
        case (Inr ns)
        obtain names strings where ns: "ns = (names, strings)" by (cases ns)
        note cs = Inr[unfolded ns]
        show ?thesis
        proof (cases "batch_encode_plus L tokenizer (map Single strings)
                  (Tokenize_encode_args add_special max_len special_mask offsets)")
          case (Inl e')
          with t p c cs show ?thesis by (simp add: Tokenize_run_def Tokenize_body_def)
        next
          case en: (Inr encoded)
          show ?thesis
          proof (cases "make_fields L tokenizer encoded 0 strings Map.empty")
            case (Inl e')
            with t p c cs en show ?thesis by (simp add: Tokenize_run_def Tokenize_body_def)
          next
            case m: (Inr string_to_field)
            from replace_splits_total obtain new_splits where
              "replace_splits string_to_field (splits input) = Inr new_splits" by blast
            with t p c cs en m show ?thesis
              by (simp add: Tokenize_run_def Tokenize_body_def split: prod.splits)
          qed
        qed
      qed
    qed
  qed
  qed
qed

lemma add_vocabs_frame:
  "next_ref (add_vocabs L tokenizer r names st) = next_ref st \<and>
   (\<forall>r'. r' \<noteq> r \<longrightarrow> cells (add_vocabs L tokenizer r names st) r' = cells st r')"
  by (induction names arbitrary: st) (simp_all add: mutate_def)

lemma make_vocab_frame:
  assumes "make_vocab L tokenizer v names st = (r, st')"
  shows "r = next_ref st \<and> next_ref st' = Suc (next_ref st) \<and>
         (\<forall>r'<next_ref st. cells st' r' = cells st r')"
proof -
  obtain st1 where n: "st1 = snd (case v of Some v' \<Rightarrow> new_object (cells st v') st
                                   | None \<Rightarrow> new_object (Vocabulary_empty L) st)"
    by simp
  have st1: "next_ref st1 = Suc (next_ref st)" "\<forall>r'<next_ref st. cells st1 r' = cells st r'"
    by (auto simp: n new_object_def split: option.splits)
  from assms have r: "r = next_ref st"
    and st': "st' = add_vocabs L tokenizer (next_ref st) (set_iteration L names) st1"
    by (auto simp: make_vocab_def n new_object_def split: option.splits)
  from add_vocabs_frame[of L tokenizer "next_ref st" "set_iteration L names" st1] st1 r st'
  show ?thesis by auto
qed

text \<open>
  C4. No input mutation. The input dataset is a value that the steps only read; the objects
  that can be mutated are the vocabularies of the store. \<open>TextOnlyDataset.run\<close> returns the
  store as it was (its output shares the vocabulary of the input). \<open>Tokenize.run\<close> changes no
  vocabulary that existed before the call, the one of the input among them: the vocabulary
  of its output is a new object (the deep copy, or an empty vocabulary), and only that
  object receives the transformer namespaces.
\<close>

theorem steps_leave_input_unchanged:
  "(TextOnlyDataset_run input fields_to_keep st = Inr (out1, st1) \<longrightarrow>
      st1 = st \<and> vocab out1 = vocab input) \<and>
   (Tokenize_run L tokenizer_name input fields_to_tokenize add_special max_len special_mask offsets st
      = Inr (out2, st2) \<longrightarrow>
      vocab out2 = Some (next_ref st) \<and> next_ref st2 = Suc (next_ref st) \<and>
      (\<forall>r<next_ref st. cells st2 r = cells st r))"
proof (intro conjI impI)
  assume "TextOnlyDataset_run input fields_to_keep st = Inr (out1, st1)"
  then show "st1 = st" "vocab out1 = vocab input"
    by (auto simp: TextOnlyDataset_run_def split: sum.splits)
next
  assume run: "Tokenize_run L tokenizer_name input fields_to_tokenize add_special max_len
      special_mask offsets st = Inr (out2, st2)"
  then obtain tokenizer names new_splits r where
    v: "make_vocab L tokenizer (vocab input) names st = (r, st2)"
    and out: "out2 = \<lparr>splits = new_splits, vocab = Some r, metadata = []\<rparr>"
    by (rule Tokenize_run_Inr)
  from make_vocab_frame[OF v] out
  show "vocab out2 = Some (next_ref st)" "next_ref st2 = Suc (next_ref st)"
    "\<forall>r<next_ref st. cells st2 r = cells st r"
    by simp_all
qed

lemma compile_all_iteration [simp]:
  "compile_all (L\<lparr>set_iteration := it\<rparr>) rs = compile_all L rs"
  by (induction rs) (simp_all cong: sum.case_cong)

lemma field_of_entry_iteration [simp]:
  "field_of_entry (L\<lparr>set_iteration := it\<rparr>) tokenizer encoded i =
   field_of_entry L tokenizer encoded i"
  by (simp add: field_of_entry_def cong: sum.case_cong)

lemma make_fields_iteration [simp]:
  "make_fields (L\<lparr>set_iteration := it\<rparr>) tokenizer encoded i strings m =
   make_fields L tokenizer encoded i strings m"
  by (induction strings arbitrary: i m) (simp_all cong: sum.case_cong)

lemma piqa_tokenized_iteration [simp]:
  "piqa_tokenized (L\<lparr>set_iteration := it\<rparr>) tokenizer max_len dataset =
   piqa_tokenized L tokenizer max_len dataset"
  by (induction dataset) (auto cong: sum.case_cong)

lemma add_vocabs_fold:
  "add_vocabs L tokenizer r names st =
   fold (\<lambda>name. mutate r (add_transformer_vocab L tokenizer name)) names st"
  by (induction names arbitrary: st) simp_all

lemma add_vocabs_iteration [simp]:
  "add_vocabs (L\<lparr>set_iteration := it\<rparr>) tokenizer r names st = add_vocabs L tokenizer r names st"
  by (simp add: add_vocabs_fold)



subsection \<open>The steps on the example\<close>

lemmas example_eval =
  Tokenize_run_def Tokenize_body_def example_libs_def example_input_def example_store_def
  compile_fields_def should_tokenize_field_def lstrip_dots_def str_nat.simps set_add_def
  Tokenize_encode_args_def field_of_entry_def optional_entry_def list_getitem_def dict_getitem_def
  make_vocab_def new_object_def mutate_def selected_def example_field_def example_tokenized_def
  PiqaInstances_run_def PiqaInstances_body_def example_piqa_def piqa_instance_of_def
  all_alternatives_def Piqa_encode_args_def alternative_field_def instance_fields_def
  example_pair_field_def example_instances_def
  tensor_int32_def tensor_int32_pairs_def tensor_bool_def in_int32_def

lemma tensor_int32_overflow:
  "tensor_int32 [101, 2147483648, 102] = Inl RuntimeError"
  "tensor_int32 [101, 2147483647, 102] = Inr (torch_tensor [101, 2147483647, 102] int32)"
  by (simp_all add: tensor_int32_def in_int32_def)

lemma example_Tokenize_run:
  "Tokenize_run example_libs ''bert'' example_input (Some [''question'']) True (Some 512) False False
     example_store =
   Inr (example_tokenized, \<lparr>cells = (\<lambda>r. {})(0 := {''question''}), next_ref = 1\<rparr>)"
  by (simp add: example_eval)

lemma example_PiqaInstances_run:
  "PiqaInstances_run example_libs ''bert'' 512 example_store =
   Inr (example_instances, \<lparr>cells = (\<lambda>r. {})(0 := {''tokens''}), next_ref = 1\<rparr>)"
  by (simp add: example_eval)

text \<open>
  C8 on the example: the run with only \<open>question\<close> to be tokenized, the split
  names and the shape.
\<close>

theorem Tokenize_preserves_structure_witness:
  "Tokenize_run example_libs ''bert'' example_input (Some [''question'']) True (Some 512) False False
     example_store =
   Inr (example_tokenized, \<lparr>cells = (\<lambda>r. {})(0 := {''question''}), next_ref = 1\<rparr>) \<and>
   map fst (splits example_tokenized) = [''train'', ''dev''] \<and>
   map fst (splits example_input) = [''train'', ''dev''] \<and>
   same_shape_items (splits example_input) (splits example_tokenized)"
  using Tokenize_preserves_structure[OF example_Tokenize_run]
  by (simp add: example_Tokenize_run) (simp add: example_input_def)

text \<open>
  C2 on the example: the string under \<open>question\<close> in the first row of the split
  \<open>dev\<close> has become a field at the same position.
\<close>

theorem Tokenize_replaces_selected_strings_witness:
  "Tokenize_run example_libs ''bert'' example_input (Some [''question'']) True (Some 512) False False
     example_store =
   Inr (example_tokenized, \<lparr>cells = (\<lambda>r. {})(0 := {''question''}), next_ref = 1\<rparr>) \<and>
   snd (splits example_input ! 1) =
     Dset [Dct [(''question'', Str ''when''), (''answers'', Lst []), (''id'', IntObj 8)]] \<and>
   subobj (Dct [(''question'', Str ''when''), (''answers'', Lst []), (''id'', IntObj 8)]) [0] =
     Some (Str ''when'') \<and>
   dotted_name (Dct [(''question'', Str ''when''), (''answers'', Lst []), (''id'', IntObj 8)]) [0] '''' =
     Some ''question'' \<and>
   selected example_libs (Some [''question'']) ''question'' \<and>
   (\<exists>f outs. splits example_tokenized ! 1 = (''dev'', Lst outs) \<and>
      subobj (outs ! 0) [0] = Some (FieldObj (TextField f)))"
proof -
  let ?row = "Dct [(''question'', Str ''when''), (''answers'', Lst []), (''id'', IntObj 8)]"
  have k: "1 < length (splits example_input)"
    and sp: "snd (splits example_input ! 1) = Lst [?row] \<or> snd (splits example_input ! 1) = Dset [?row]"
    and i: "0 < length [?row]"
    and sub: "subobj ([?row] ! 0) [0] = Some (Str ''when'')"
    and dn: "dotted_name ([?row] ! 0) [0] '''' = Some ''question''"
    and sel: "selected example_libs (Some [''question'']) ''question''"
    by (simp_all add: example_input_def lstrip_dots_def selected_def example_libs_def)
  from Tokenize_replaces_selected_strings[OF example_Tokenize_run]
  have "\<exists>f outs. splits example_tokenized ! 1 = (fst (splits example_input ! 1), Lst outs) \<and>
      subobj (outs ! 0) [0] = Some (FieldObj (TextField f))"
    using k sp i sub dn sel by blast
  then have "\<exists>f outs. splits example_tokenized ! 1 = (''dev'', Lst outs) \<and>
      subobj (outs ! 0) [0] = Some (FieldObj (TextField f))"
    by (simp add: example_input_def)
  with sub dn sel show ?thesis
    by (simp add: example_Tokenize_run) (simp add: example_input_def)
qed

text \<open>
  C1 on the example: the second instance of the split \<open>train\<close> (\<open>k =
  0\<close>, \<open>i = 1\<close>) has the fields of the entries 2 and 3 of the batch, the
  encodings of (\<open>boil water\<close>, \<open>freezer\<close>) and (\<open>boil
  water\<close>, \<open>kettle\<close>).
\<close>

theorem PiqaInstances_alternatives_witness:
  "PiqaInstances_run example_libs ''bert'' 512 example_store =
     Inr (example_instances, \<lparr>cells = (\<lambda>r. {})(0 := {''tokens''}), next_ref = 1\<rparr>) \<and>
   load_dataset example_libs ''piqa'' = Inr example_piqa \<and>
   distinct (map fst example_piqa) \<and>
   0 < length example_piqa \<and>
   1 < length (snd (example_piqa ! 0)) \<and>
   (\<exists>f1 f2 fs instances.
      input_ids f1 = torch_tensor [101, 10, 102, 7, 102] int32 \<and>
      input_ids f2 = torch_tensor [101, 10, 102, 6, 102] int32 \<and>
      splits example_instances ! 0 = (''train'', Lst instances) \<and>
      instances ! 1 = Instance fs \<and>
      map_of fs ''alternatives'' = Some (ListField [TextField f1, TextField f2]))"
proof -
  have l: "load_dataset example_libs ''piqa'' = Inr example_piqa"
    and d: "distinct (map fst example_piqa)"
    and k: "0 < length example_piqa"
    and i: "1 < length (snd (example_piqa ! 0))"
    by (simp_all add: example_libs_def example_piqa_def)
  from PiqaInstances_alternatives[OF example_PiqaInstances_run l d k i]
  obtain f1 f2 fs instances where
    a: "splits example_instances ! 0 = (fst (example_piqa ! 0), Lst instances)"
       "instances ! 1 = Instance fs"
       "map_of fs ''alternatives'' = Some (ListField [TextField f1, TextField f2])"
    by auto
  from a have "f1 = \<lparr>input_ids = torch_tensor [101, 10, 102, 7, 102] int32,
        token_type_ids = Some (torch_tensor [0, 0, 0, 1, 1] int32),
        attention_mask = None, special_tokens_mask = None, offsets_mapping = None,
        padding_token_id = Some 0\<rparr>"
    and "f2 = \<lparr>input_ids = torch_tensor [101, 10, 102, 6, 102] int32,
        token_type_ids = Some (torch_tensor [0, 0, 0, 1, 1] int32),
        attention_mask = None, special_tokens_mask = None, offsets_mapping = None,
        padding_token_id = Some 0\<rparr>"
    by (auto simp: example_instances_def example_pair_field_def)
  with a have "\<exists>f1 f2 fs instances.
      input_ids f1 = torch_tensor [101, 10, 102, 7, 102] int32 \<and>
      input_ids f2 = torch_tensor [101, 10, 102, 6, 102] int32 \<and>
      splits example_instances ! 0 = (''train'', Lst instances) \<and>
      instances ! 1 = Instance fs \<and>
      map_of fs ''alternatives'' = Some (ListField [TextField f1, TextField f2])"
    by (auto simp: example_piqa_def)
  with l d k i show ?thesis
    by (simp add: example_PiqaInstances_run)
qed

text \<open>
  C10 on the example: the instance of the split \<open>test\<close> has the label
  \<open>-1\<close> and the field \<open>alternatives\<close> only.
\<close>

theorem PiqaInstances_label_field_witness:
  "PiqaInstances_run example_libs ''bert'' 512 example_store =
     Inr (example_instances, \<lparr>cells = (\<lambda>r. {})(0 := {''tokens''}), next_ref = 1\<rparr>) \<and>
   load_dataset example_libs ''piqa'' = Inr example_piqa \<and>
   distinct (map fst example_piqa) \<and>
   1 < length example_piqa \<and>
   0 < length (snd (example_piqa ! 1)) \<and>
   map_of (snd (example_piqa ! 1) ! 0) ''label'' = Some (IntObj (- 1)) \<and>
   (\<exists>alts instances.
      splits example_instances ! 1 = (''test'', Lst instances) \<and>
      instances ! 0 = Instance [(''alternatives'', alts)])"
proof -
  have l: "load_dataset example_libs ''piqa'' = Inr example_piqa"
    and d: "distinct (map fst example_piqa)"
    and k: "1 < length example_piqa"
    and i: "0 < length (snd (example_piqa ! 1))"
    and lab: "map_of (snd (example_piqa ! 1) ! 0) ''label'' = Some (IntObj (- 1))"
    by (simp_all add: example_libs_def example_piqa_def)
  from PiqaInstances_label_field[OF example_PiqaInstances_run l d k i] lab
  have "\<exists>alts instances.
      splits example_instances ! 1 = (fst (example_piqa ! 1), Lst instances) \<and>
      instances ! 0 = Instance [(''alternatives'', alts)]"
    by auto
  then have "\<exists>alts instances.
      splits example_instances ! 1 = (''test'', Lst instances) \<and>
      instances ! 0 = Instance [(''alternatives'', alts)]"
    by (simp add: example_piqa_def)
  with l d k i lab show ?thesis
    by (simp add: example_PiqaInstances_run)
qed

text \<open>
  C7 on the example: the tokenizer \<open>xlnet\<close> has \<open>pad_token_type_id =
  3\<close> and both steps raise \<open>AssertionError\<close>; the tokenizer
  \<open>bert\<close> has 0 and both steps run their body.
\<close>

theorem tokenizer_assertion_witness:
  "get_tokenizer example_libs ''xlnet'' = Inr 3 \<and>
   pad_token_type_id example_libs 3 = 3 \<and>
   Tokenize_run example_libs ''xlnet'' example_input None True (Some 512) False False example_store
     = Inl AssertionError \<and>
   PiqaInstances_run example_libs ''xlnet'' 512 example_store = Inl AssertionError \<and>
   get_tokenizer example_libs ''bert'' = Inr 0 \<and>
   pad_token_type_id example_libs 0 = 0 \<and>
   Tokenize_run example_libs ''bert'' example_input None True (Some 512) False False example_store
     = Tokenize_body example_libs 0 example_input None True (Some 512) False False example_store \<and>
   PiqaInstances_run example_libs ''bert'' 512 example_store
     = PiqaInstances_body example_libs 0 512 example_store"
proof -
  have x: "get_tokenizer example_libs ''xlnet'' = Inr 3"
    and b: "get_tokenizer example_libs ''bert'' = Inr 0"
    and p: "pad_token_type_id example_libs 3 = 3" "pad_token_type_id example_libs 0 = 0"
    by (simp_all add: example_libs_def)
  from tokenizer_assertion[OF x, of example_input None True "Some 512" False False example_store 512]
    tokenizer_assertion[OF b, of example_input None True "Some 512" False False example_store 512]
    x b p
  show ?thesis by simp
qed

text \<open>
  C6, as amended, on the example: the failure to load an unknown tokenizer reaches the
  caller unmodified.
\<close>

theorem Tokenize_failures_witness:
  "dict_getitem (Map.empty :: string \<rightharpoonup> TransformerTextField) ''so'' = Inl KeyError \<and>
   replace_string_objects Map.empty (Str ''so'') = Inr (Str ''so'') \<and>
   get_tokenizer example_libs ''gpt'' = Inl (LibraryError ''unknown tokenizer'') \<and>
   Tokenize_run example_libs ''gpt'' example_input None True (Some 512) False False example_store
     = Inl (LibraryError ''unknown tokenizer'')"
  using Tokenize_failures[of Map.empty "''so''" "[]" example_libs "''gpt''" example_input None True
      "Some 512" False False example_store "LibraryError ''unknown tokenizer''"]
  by (simp add: example_libs_def dict_getitem_def)

text \<open>
  C6, as stated, fails. In the run on the example with only \<open>question\<close> to be
  tokenized, \<open>string_to_field\<close> has the keys \<open>why\<close> and
  \<open>when\<close>; the lookup of the string \<open>so\<close> (under
  \<open>answers.0\<close>) raises \<open>KeyError\<close>,
  \<open>replace_string_objects\<close> catches it and returns the string, and the run
  returns a dataset: the \<open>KeyError\<close> does not reach the caller.
\<close>

theorem Tokenize_missing_key_is_caught:
  "make_fields example_libs 0
     \<lparr>enc_input_ids = [[101, 3, 102], [101, 4, 102]],
      enc_token_type_ids = [[0, 0, 0], [0, 0, 0]],
      enc_attention_mask = None, enc_special_tokens_mask = None, enc_offset_mapping = None\<rparr>
     0 [''why'', ''when''] Map.empty
     = Inr [''why'' \<mapsto> example_field 3, ''when'' \<mapsto> example_field 4] \<and>
   dict_getitem [''why'' \<mapsto> example_field 3, ''when'' \<mapsto> example_field 4] ''so'' = Inl KeyError \<and>
   replace_string_objects [''why'' \<mapsto> example_field 3, ''when'' \<mapsto> example_field 4] (Str ''so'')
     = Inr (Str ''so'') \<and>
   Tokenize_run example_libs ''bert'' example_input (Some [''question'']) True (Some 512) False False
     example_store =
   Inr (example_tokenized, \<lparr>cells = (\<lambda>r. {})(0 := {''question''}), next_ref = 1\<rparr>)"
  by (simp add: example_Tokenize_run)
     (simp add: example_libs_def field_of_entry_def list_getitem_def optional_entry_def
        example_field_def dict_getitem_def tensor_int32_def in_int32_def)

text \<open>
  C9: unmatched strings pass through. The code does not keep this when a string of a field
  that is not selected is equal to a string of a selected field: the replacement looks
  strings up by their value, not by their field name. With only \<open>question\<close>
  selected, the string \<open>why\<close> at the position of the field
  \<open>answers.1\<close>, which no regular expression matches, is replaced by the field
  made for the equal string under \<open>question\<close>.
\<close>

theorem Tokenize_replaces_equal_string_of_other_field:
  "subobj (Dct [(''question'', Str ''why''), (''answers'', Lst [Str ''so'', Str ''why'']),
               (''id'', IntObj 7)]) [1, 1] = Some (Str ''why'') \<and>
   dotted_name (Dct [(''question'', Str ''why''), (''answers'', Lst [Str ''so'', Str ''why'']),
               (''id'', IntObj 7)]) [1, 1] '''' = Some ''answers.1'' \<and>
   \<not> selected example_libs (Some [''question'']) ''answers.1'' \<and>
   Tokenize_run example_libs ''bert''
     \<lparr>splits = [(''train'', Lst [Dct [(''question'', Str ''why''),
                                      (''answers'', Lst [Str ''so'', Str ''why'']),
                                      (''id'', IntObj 7)]])],
      vocab = None, metadata = []\<rparr>
     (Some [''question'']) True (Some 512) False False example_store =
   Inr (\<lparr>splits = [(''train'', Lst [Dct [(''question'', FieldObj (TextField (example_field 3))),
                                          (''answers'', Lst [Str ''so'',
                                                             FieldObj (TextField (example_field 3))]),
                                          (''id'', IntObj 7)]])],
         vocab = Some 0, metadata = []\<rparr>,
        \<lparr>cells = (\<lambda>r. {})(0 := {''question''}), next_ref = 1\<rparr>) \<and>
   subobj (Dct [(''question'', FieldObj (TextField (example_field 3))),
               (''answers'', Lst [Str ''so'', FieldObj (TextField (example_field 3))]),
               (''id'', IntObj 7)]) [1, 1] = Some (FieldObj (TextField (example_field 3)))"
  by (simp add: example_eval)

text \<open>
  C4 on the example: the input has the vocabulary at reference 0; after both runs that
  vocabulary is what it was, and \<open>Tokenize\<close> has put the namespace
  \<open>question\<close> into the new vocabulary at reference 1.
\<close>

theorem steps_leave_input_unchanged_witness:
  "TextOnlyDataset_run (example_input\<lparr>vocab := Some 0\<rparr>) {''question''}
     \<lparr>cells = (\<lambda>r. {''tokens''}), next_ref = 1\<rparr> =
     Inr (\<lparr>splits = [(''train'', Lst [Dct [(''text'', Str ''why'')]]),
                      (''dev'', Lst [Dct [(''text'', Str ''when'')]])],
           vocab = Some 0, metadata = []\<rparr>,
          \<lparr>cells = (\<lambda>r. {''tokens''}), next_ref = 1\<rparr>) \<and>
   Tokenize_run example_libs ''bert'' (example_input\<lparr>vocab := Some 0\<rparr>) (Some [''question''])
     True (Some 512) False False \<lparr>cells = (\<lambda>r. {''tokens''}), next_ref = 1\<rparr> =
     Inr (example_tokenized\<lparr>vocab := Some 1\<rparr>,
          \<lparr>cells = (\<lambda>r. {''tokens''})(1 := {''question'', ''tokens''}), next_ref = 2\<rparr>) \<and>
   cells \<lparr>cells = (\<lambda>r. {''tokens''})(1 := {''question'', ''tokens''}), next_ref = 2\<rparr> 0 =
     cells \<lparr>cells = (\<lambda>r. {''tokens''}), next_ref = (1::nat)\<rparr> 0"
proof -
  have t: "TextOnlyDataset_run (example_input\<lparr>vocab := Some 0\<rparr>) {''question''}
     \<lparr>cells = (\<lambda>r. {''tokens''}), next_ref = 1\<rparr> =
     Inr (\<lparr>splits = [(''train'', Lst [Dct [(''text'', Str ''why'')]]),
                      (''dev'', Lst [Dct [(''text'', Str ''when'')]])],
           vocab = Some 0, metadata = []\<rparr>,
          \<lparr>cells = (\<lambda>r. {''tokens''}), next_ref = 1\<rparr>)"
    by (simp add: TextOnlyDataset_run_def example_input_def)
  have k: "Tokenize_run example_libs ''bert'' (example_input\<lparr>vocab := Some 0\<rparr>) (Some [''question''])
     True (Some 512) False False \<lparr>cells = (\<lambda>r. {''tokens''}), next_ref = 1\<rparr> =
     Inr (example_tokenized\<lparr>vocab := Some 1\<rparr>,
          \<lparr>cells = (\<lambda>r. {''tokens''})(1 := {''question'', ''tokens''}), next_ref = 2\<rparr>)"
    by (simp add: example_eval)
  from steps_leave_input_unchanged[of "example_input\<lparr>vocab := Some 0\<rparr>" "{''question''}"
      "\<lparr>cells = (\<lambda>r. {''tokens''}), next_ref = 1\<rparr>"
      "\<lparr>splits = [(''train'', Lst [Dct [(''text'', Str ''why'')]]),
                  (''dev'', Lst [Dct [(''text'', Str ''when'')]])],
        vocab = Some 0, metadata = []\<rparr>"
      "\<lparr>cells = (\<lambda>r. {''tokens''}), next_ref = 1\<rparr>"
      example_libs "''bert''" "Some [''question'']" True "Some 512" False False
      "example_tokenized\<lparr>vocab := Some 1\<rparr>"
      "\<lparr>cells = (\<lambda>r. {''tokens''})(1 := {''question'', ''tokens''}), next_ref = 2\<rparr>"]
    t k
  show ?thesis by simp
qed



end
